theory Spec2Isabelle
  imports Complex_Main "HOL-Library.AList"
begin

section \<open>Values and errors\<close>

text \<open>
  The module \<^verbatim>\<open>pysvgchart.py\<close> computes axis limits for numeric and calendar data, maps
  data to pixel positions and assembles drawable primitives into an SVG document.

  Idealisations of the embedding, fixed here once:
  \<^item> Python's \<^verbatim>\<open>int\<close> and \<^verbatim>\<open>float\<close> values are real numbers: arithmetic is exact, and
    \<^verbatim>\<open>inf\<close>, \<^verbatim>\<open>nan\<close> and overflow do not exist. \<^verbatim>\<open>1\<close> and \<^verbatim>\<open>1.0\<close> are the same value,
    as they are for Python's \<^verbatim>\<open>==\<close> and \<^verbatim>\<open>hash\<close>, but not for \<^verbatim>\<open>str\<close>. Binary floating
    point rounds where the reals do not: a quantity that is exactly at a threshold here
    (a raw step of exactly 10, or of exactly 0) can be on either side of it there. The
    concrete inputs evaluated below are computed without rounding in both.
  \<^item> Time zones are absent: every \<^verbatim>\<open>datetime\<close> is naive.
  \<^item> Objects are values: two shapes that share one style dictionary in the source hold
    two equal dictionaries here.
  Every exception the source can raise on these values is a result \<open>Inl e\<close>.
\<close>

datatype error =
    ValueError string
  | TypeError
  | ZeroDivisionError
  | IndexError
  | AttributeError
  | OverflowError

datatype date = Date (year: int) (month: int) (day: int)

text \<open>
  The values a caller passes as data points: a number, a \<^verbatim>\<open>datetime.date\<close>, a
  \<^verbatim>\<open>datetime.datetime\<close> (calendar date and microseconds since midnight), or \<^verbatim>\<open>None\<close>,
  which stands for an element that is neither numeric nor date-like.
\<close>

datatype pyval =
    PNum real
  | PDate date
  | PDatetime date nat
  | PNone

text \<open>The result of a subtraction: a number or a \<^verbatim>\<open>timedelta\<close> (in microseconds).\<close>

datatype pydiff = DNum real | DTimedelta int

section \<open>The proleptic Gregorian calendar of \<^verbatim>\<open>datetime\<close>\<close>

definition is_leap :: "int \<Rightarrow> bool" where
  "is_leap y = (y mod 4 = 0 \<and> (y mod 100 \<noteq> 0 \<or> y mod 400 = 0))"

definition days_in_month :: "int \<Rightarrow> int \<Rightarrow> int" where
  "days_in_month y m =
     (if m = 2 then (if is_leap y then 29 else 28)
      else if m = 4 \<or> m = 6 \<or> m = 9 \<or> m = 11 then 30 else 31)"

definition days_before_year :: "int \<Rightarrow> int" where
  "days_before_year y = (let y1 = y - 1 in y1 * 365 + y1 div 4 - y1 div 100 + y1 div 400)"

definition days_before_month :: "int \<Rightarrow> int \<Rightarrow> int" where
  "days_before_month y m = sum_list (map (days_in_month y) [1..m - 1])"

definition toordinal :: "date \<Rightarrow> int" where
  "toordinal d = days_before_year (year d) + days_before_month (year d) (month d) + day d"

definition valid_date :: "date \<Rightarrow> bool" where
  "valid_date d = (1 \<le> month d \<and> month d \<le> 12 \<and> 1 \<le> day d
     \<and> day d \<le> days_in_month (year d) (month d))"

definition date_lt :: "date \<Rightarrow> date \<Rightarrow> bool" where
  "date_lt a b = (year a < year b \<or> (year a = year b \<and>
     (month a < month b \<or> (month a = month b \<and> day a < day b))))"

definition date_le :: "date \<Rightarrow> date \<Rightarrow> bool" where
  "date_le a b = (date_lt a b \<or> a = b)"

definition next_day :: "date \<Rightarrow> date" where
  "next_day d =
     (if day d < days_in_month (year d) (month d) then Date (year d) (month d) (day d + 1)
      else if month d < 12 then Date (year d) (month d + 1) 1
      else Date (year d + 1) 1 1)"

definition date_add_days :: "date \<Rightarrow> nat \<Rightarrow> date" where
  "date_add_days d n = (next_day ^^ n) d"

text \<open>
  The \<^verbatim>\<open>datetime\<close> module represents the years \<^verbatim>\<open>MINYEAR\<close> to \<^verbatim>\<open>MAXYEAR\<close> only. The
  constructor \<^verbatim>\<open>datetime.datetime(year, month, day)\<close> checks its arguments in this order and
  raises \<^verbatim>\<open>ValueError\<close>; the result is a datetime at midnight, held as its date. Adding
  \<^verbatim>\<open>datetime.timedelta(days=n)\<close> raises \<^verbatim>\<open>OverflowError\<close> when the sum is after the last day
  of \<^verbatim>\<open>MAXYEAR\<close>.
\<close>

definition MINYEAR :: int where
  "MINYEAR = 1"

definition MAXYEAR :: int where
  "MAXYEAR = 9999"

text \<open>The decimal digits of a number, as \<^verbatim>\<open>str\<close> writes them.\<close>

fun str_of_nat :: "nat \<Rightarrow> string" where
  "str_of_nat n =
     (if n < 10 then [''0123456789'' ! n]
      else str_of_nat (n div 10) @ [''0123456789'' ! (n mod 10)])"

definition str_of_int :: "int \<Rightarrow> string" where
  "str_of_int i = (if i < 0 then ''-'' @ str_of_nat (nat (- i)) else str_of_nat (nat i))"

definition datetime :: "int \<Rightarrow> int \<Rightarrow> int \<Rightarrow> error + date" where
  "datetime y m d =
     (if y < MINYEAR \<or> MAXYEAR < y then
        Inl (ValueError (''year '' @ str_of_int y @ '' is out of range''))
      else if m < 1 \<or> 12 < m then Inl (ValueError ''month must be in 1..12'')
      else if d < 1 \<or> days_in_month y m < d then
        Inl (ValueError ''day is out of range for month'')
      else Inr (Date y m d))"

definition datetime_add_days :: "date \<Rightarrow> nat \<Rightarrow> error + date" where
  "datetime_add_days d n =
     (let r = date_add_days d n in if MAXYEAR < year r then Inl OverflowError else Inr r)"

section \<open>Python's comparison, \<^verbatim>\<open>min\<close>, \<^verbatim>\<open>max\<close>, subtraction and division\<close>

fun py_lt :: "pyval \<Rightarrow> pyval \<Rightarrow> error + bool" where
  "py_lt (PNum a) (PNum b) = Inr (a < b)"
| "py_lt (PDate a) (PDate b) = Inr (date_lt a b)"
| "py_lt (PDatetime a s) (PDatetime b t) = Inr (date_lt a b \<or> (a = b \<and> s < t))"
| "py_lt _ _ = Inl TypeError"

fun min_loop :: "pyval list \<Rightarrow> pyval \<Rightarrow> error + pyval" where
  "min_loop [] m = Inr m"
| "min_loop (x # xs) m =
     (case py_lt x m of Inl e \<Rightarrow> Inl e | Inr b \<Rightarrow> min_loop xs (if b then x else m))"

fun max_loop :: "pyval list \<Rightarrow> pyval \<Rightarrow> error + pyval" where
  "max_loop [] m = Inr m"
| "max_loop (x # xs) m =
     (case py_lt m x of Inl e \<Rightarrow> Inl e | Inr b \<Rightarrow> max_loop xs (if b then x else m))"

fun py_min :: "pyval list \<Rightarrow> error + pyval" where
  "py_min [] = Inl (ValueError ''min() arg is an empty sequence'')"
| "py_min (x # xs) = min_loop xs x"

fun py_max :: "pyval list \<Rightarrow> error + pyval" where
  "py_max [] = Inl (ValueError ''max() arg is an empty sequence'')"
| "py_max (x # xs) = max_loop xs x"

definition us_per_day :: int where
  "us_per_day = 86400000000"

fun py_sub :: "pyval \<Rightarrow> pyval \<Rightarrow> error + pydiff" where
  "py_sub (PNum a) (PNum b) = Inr (DNum (a - b))"
| "py_sub (PDate a) (PDate b) = Inr (DTimedelta ((toordinal a - toordinal b) * us_per_day))"
| "py_sub (PDatetime a s) (PDatetime b t) =
     Inr (DTimedelta ((toordinal a - toordinal b) * us_per_day + (int s - int t)))"
| "py_sub _ _ = Inl TypeError"

text \<open>The attribute \<^verbatim>\<open>.days\<close>: a timedelta is normalised, so the days are rounded down.\<close>

fun days :: "pydiff \<Rightarrow> error + int" where
  "days (DTimedelta us) = Inr (us div us_per_day)"
| "days (DNum _) = Inl AttributeError"

fun py_truediv :: "pydiff \<Rightarrow> pydiff \<Rightarrow> error + real" where
  "py_truediv (DNum a) (DNum b) = (if b = 0 then Inl ZeroDivisionError else Inr (a / b))"
| "py_truediv (DTimedelta a) (DTimedelta b) =
     (if b = 0 then Inl ZeroDivisionError else Inr (real_of_int a / real_of_int b))"
| "py_truediv _ _ = Inl TypeError"

text \<open>\<^verbatim>\<open>int(x)\<close> on a float rounds towards zero.\<close>

definition py_int :: "real \<Rightarrow> int" where
  "py_int x = (if 0 \<le> x then \<lfloor>x\<rfloor> else \<lceil>x\<rceil>)"

definition log10 :: "real \<Rightarrow> error + real" where
  "log10 x = (if x \<le> 0 then Inl (ValueError ''math domain error'') else Inr (log 10 x))"

fun the_num :: "pyval \<Rightarrow> error + real" where
  "the_num (PNum a) = Inr a"
| "the_num _ = Inl TypeError"

section \<open>Limits\<close>

subsection \<open>\<^verbatim>\<open>get_numeric_limits\<close>\<close>

text \<open>
  The numeric operands of \<^verbatim>\<open>1.2 * value_max\<close> are read with \<^const>\<open>the_num\<close>: a date
  there is a \<^verbatim>\<open>TypeError\<close>. The products, the quotient and the logarithm are those of the
  reals. With the values 8 and 48 and five ticks the raw step is exactly 10 and the step
  is 20, where the rounded product \<^verbatim>\<open>1.2 * 48\<close> of floating point gives a raw step just
  below 10 and the step 10; with the values -24 and -19 and one tick the raw step is
  exactly 0 and the logarithm raises, where floating point gives a raw step just off 0.
\<close>

definition get_numeric_limits :: "pyval list \<Rightarrow> int \<Rightarrow> error + pyval list" where
  "get_numeric_limits values max_ticks =
     (case py_min values of Inl e \<Rightarrow> Inl e | Inr vmin \<Rightarrow>
      case py_max values of Inl e \<Rightarrow> Inl e | Inr vmax \<Rightarrow>
      case the_num vmax of Inl e \<Rightarrow> Inl e | Inr value_max \<Rightarrow>
      case the_num vmin of Inl e \<Rightarrow> Inl e | Inr value_min \<Rightarrow>
      if max_ticks = 0 then Inl ZeroDivisionError else
      let raw_pad = (1.2 * value_max - 0.95 * value_min) / real_of_int max_ticks in
      case log10 \<bar>raw_pad\<bar> of Inl e \<Rightarrow> Inl e | Inr lg \<Rightarrow>
      let remainder = lg - real_of_int (py_int lg);
          leader = (if remainder < 0.301 then 2 else (if remainder < 0.698 then 5 else 10));
          pad = leader * 10 powi py_int lg;
          start = \<lfloor>0.95 * value_min / pad\<rfloor>;
          end' = \<lceil>1.2 * value_max / pad\<rceil>
      in Inr (map (\<lambda>y. PNum (real_of_int y * pad)) [start..end']))"

subsection \<open>\<^verbatim>\<open>get_big_date_limits\<close>\<close>

fun date_of :: "pyval \<Rightarrow> date option" where
  "date_of (PDate d) = Some d"
| "date_of (PDatetime d t) = Some d"
| "date_of _ = None"

text \<open>
  The \<^verbatim>\<open>while\<close> loop. \<open>current_tick\<close> and \<open>end'\<close> are datetimes at midnight, held as
  their dates; \<^verbatim>\<open>current_tick.date()\<close> is appended. The next tick is built by the
  constructor, which raises \<^verbatim>\<open>ValueError\<close> once its year is outside the calendar. With an
  interval of zero months and a first tick that is not after the end the loop does not
  return, and its result is \<open>None\<close>; \<open>get_big_date_limits\<close> runs it with an interval of
  1, 2, 3, 6 or 12 months.
\<close>

partial_function (option) tick_loop ::
  "int \<Rightarrow> date \<Rightarrow> date \<Rightarrow> pyval list \<Rightarrow> (error + pyval list) option" where
  "tick_loop interval_months end' current_tick ticks =
     (if date_le current_tick end' then
        (let ticks' = ticks @ [PDate current_tick];
             month1 = month current_tick + interval_months;
             year' = year current_tick + (month1 - 1) div 12;
             month' = (month1 - 1) mod 12 + 1
         in case datetime year' month' 1 of
              Inl e \<Rightarrow> Some (Inl e)
            | Inr next_tick \<Rightarrow> tick_loop interval_months end' next_tick ticks')
      else Some (Inr ticks))"

definition get_big_date_limits :: "pyval list \<Rightarrow> int \<Rightarrow> (error + pyval list) option" where
  "get_big_date_limits dates max_ticks =
     (case py_min dates of Inl e \<Rightarrow> Some (Inl e) | Inr date_min \<Rightarrow>
      case py_max dates of Inl e \<Rightarrow> Some (Inl e) | Inr date_max \<Rightarrow>
      case py_sub date_max date_min of Inl e \<Rightarrow> Some (Inl e) | Inr delta \<Rightarrow>
      case days delta of Inl e \<Rightarrow> Some (Inl e) | Inr total_days \<Rightarrow>
      if total_days \<le> 0 then Some (Inl (ValueError ''Dates must have a positive range.'')) else
      if max_ticks = 0 then Some (Inl ZeroDivisionError) else
      let approx_months = real_of_int total_days / 30;
          raw_interval = approx_months / real_of_int max_ticks;
          interval_months =
            (if raw_interval \<le> 1 then 1
             else if raw_interval \<le> 2 then 2
             else if raw_interval \<le> 3 then 3
             else if raw_interval \<le> 6 then 6
             else 12)
      in case (date_of date_min, date_of date_max) of
           (Some dmin, Some dmax) \<Rightarrow>
             (case datetime (year dmin) (month dmin) 1 of Inl e \<Rightarrow> Some (Inl e) | Inr start \<Rightarrow>
              case datetime (year dmax) (month dmax) 1 of Inl e \<Rightarrow> Some (Inl e) | Inr end1 \<Rightarrow>
              case datetime_add_days end1 31 of Inl e \<Rightarrow> Some (Inl e) | Inr end2 \<Rightarrow>
              case datetime (year end2) (month end2) 1 of Inl e \<Rightarrow> Some (Inl e) | Inr end' \<Rightarrow>
                tick_loop interval_months end' start [])
         | _ \<Rightarrow> Some (Inl AttributeError))"

subsection \<open>\<^verbatim>\<open>get_limits\<close>\<close>

fun is_date_like :: "pyval \<Rightarrow> bool" where
  "is_date_like (PDate d) = True"
| "is_date_like (PDatetime d t) = True"
| "is_date_like _ = False"

fun is_numeric :: "pyval \<Rightarrow> bool" where
  "is_numeric (PNum a) = True"
| "is_numeric _ = False"

text \<open>
  \<open>values\<close> is a list, so the tests \<^verbatim>\<open>values is None\<close> and
  \<^verbatim>\<open>not isinstance(values, Iterable)\<close> are false; \<^verbatim>\<open>len(set(values))\<close> counts the
  distinct elements.
\<close>

definition get_limits :: "pyval list \<Rightarrow> int \<Rightarrow> (error + pyval list) option" where
  "get_limits values max_ticks =
     (if length (remdups values) \<le> 1 then
        Some (Inl (ValueError
          ''Values must be a non-empty iterable with at least two unique elements.''))
      else if list_all is_date_like values then get_big_date_limits values max_ticks
      else if list_all is_numeric values then Some (get_numeric_limits values max_ticks)
      else Some (Inl (ValueError ''Invalid numeric data'')))"

section \<open>Drawable primitives\<close>

text \<open>
  A style dictionary is an association list in insertion order with distinct keys; an
  assignment \<^verbatim>\<open>styles[k] = v\<close> is \<^const>\<open>AList.update\<close>. The conversion of a number to
  text inside \<^verbatim>\<open>str.format\<close> is the parameter \<open>fmt\<close> of every rendering function. It
  reads a real number, so it writes the \<^verbatim>\<open>int\<close> 1 and the \<^verbatim>\<open>float\<close> 1.0 alike, where
  Python writes \<^verbatim>\<open>1\<close> and \<^verbatim>\<open>1.0\<close>: a fragment is determined up to the text of its
  numbers, and the fragments of an element list, their number and their order are those
  of the source.
\<close>

type_synonym styles = "(string \<times> string) list"

datatype point = Point (point_x: real) (point_y: real)

fun py_join :: "string \<Rightarrow> string list \<Rightarrow> string" where
  "py_join sep [] = []"
| "py_join sep [s] = s"
| "py_join sep (s # t # ts) = s @ sep @ py_join sep (t # ts)"

definition render_styles :: "styles \<Rightarrow> string" where
  \<open>render_styles st = py_join '' '' (map (\<lambda>(style, v). style @ ''="'' @ v @ ''"'') st)\<close>

subsection \<open>\<^verbatim>\<open>Line\<close>, \<^verbatim>\<open>Circle\<close>, \<^verbatim>\<open>Text\<close>\<close>

record line =
  line_position :: point
  line_end :: point
  line_styles :: styles

definition Line :: "real \<Rightarrow> real \<Rightarrow> real \<Rightarrow> real \<Rightarrow> styles option \<Rightarrow> line" where
  "Line x_position y_position w h st =
     \<lparr>line_position = Point x_position y_position,
      line_end = Point (x_position + w) (y_position + h),
      line_styles = (case st of None \<Rightarrow> [] | Some s \<Rightarrow> s)\<rparr>"

definition line_markup :: "(real \<Rightarrow> string) \<Rightarrow> line \<Rightarrow> string" where
  \<open>line_markup fmt l =
     ''<line x1="'' @ fmt (point_x (line_position l)) @ ''" y1="'' @ fmt (point_y (line_position l))
       @ ''" x2="'' @ fmt (point_x (line_end l)) @ ''" y2="'' @ fmt (point_y (line_end l))
       @ ''" '' @ render_styles (line_styles l) @ ''/>''\<close>

definition Line_get_element_list :: "(real \<Rightarrow> string) \<Rightarrow> line \<Rightarrow> string list" where
  "Line_get_element_list fmt l = [line_markup fmt l]"

record circle =
  circle_position :: point
  circle_styles :: styles
  circle_radius :: real

definition Circle :: "real \<Rightarrow> real \<Rightarrow> real \<Rightarrow> styles option \<Rightarrow> circle" where
  "Circle x_position y_position radius st =
     \<lparr>circle_position = Point x_position y_position,
      circle_styles = (case st of None \<Rightarrow> [] | Some s \<Rightarrow> s),
      circle_radius = radius\<rparr>"

definition circle_markup :: "(real \<Rightarrow> string) \<Rightarrow> circle \<Rightarrow> string" where
  \<open>circle_markup fmt c =
     ''<circle cx="'' @ fmt (point_x (circle_position c)) @ ''" cy="''
       @ fmt (point_y (circle_position c)) @ ''" r="'' @ fmt (circle_radius c)
       @ ''" '' @ render_styles (circle_styles c) @ ''/>''\<close>

definition Circle_get_element_list :: "(real \<Rightarrow> string) \<Rightarrow> circle \<Rightarrow> string list" where
  "Circle_get_element_list fmt c = [circle_markup fmt c]"

record text_shape =
  text_position :: point
  text_styles :: styles
  text_content :: string

definition Text :: "real \<Rightarrow> real \<Rightarrow> string \<Rightarrow> styles option \<Rightarrow> text_shape" where
  "Text x_position y_position content st =
     \<lparr>text_position = Point x_position y_position,
      text_styles = (case st of None \<Rightarrow> [] | Some s \<Rightarrow> s),
      text_content = content\<rparr>"

definition text_markup :: "(real \<Rightarrow> string) \<Rightarrow> text_shape \<Rightarrow> string" where
  \<open>text_markup fmt t =
     ''<text x="'' @ fmt (point_x (text_position t)) @ ''" y="'' @ fmt (point_y (text_position t))
       @ ''" '' @ render_styles (text_styles t) @ ''>'' @ text_content t @ ''</text>''\<close>

definition Text_get_element_list :: "(real \<Rightarrow> string) \<Rightarrow> text_shape \<Rightarrow> string list" where
  "Text_get_element_list fmt t = [text_markup fmt t]"

subsection \<open>\<^verbatim>\<open>SimpleLineSeries\<close>\<close>

record line_series =
  series_position :: point
  series_points :: "point list"
  series_styles :: styles

definition path_default_styles :: styles where
  "path_default_styles = [(''stroke-width'', ''2'')]"

text \<open>\<^verbatim>\<open>points[0]\<close> raises \<^verbatim>\<open>IndexError\<close> on an empty list.\<close>

definition SimpleLineSeries :: "point list \<Rightarrow> error + line_series" where
  "SimpleLineSeries points =
     (case points of
        [] \<Rightarrow> Inl IndexError
      | p # _ \<Rightarrow> Inr \<lparr>series_position = Point (point_x p) (point_y p),
                      series_points = points,
                      series_styles = path_default_styles\<rparr>)"

definition path_markup :: "(real \<Rightarrow> string) \<Rightarrow> line_series \<Rightarrow> string" where
  \<open>path_markup fmt s =
     (let path = py_join '' ''
            (map (\<lambda>(i, p). (if i \<noteq> 0 then ''L'' else ''M'') @ '' '' @ fmt (point_x p)
                              @ '' '' @ fmt (point_y p))
               (enumerate 0 (series_points s)))
      in ''<path d="'' @ path @ ''" fill="none" '' @ render_styles (series_styles s) @ ''/>'')\<close>

definition SimpleLineSeries_get_element_list :: "(real \<Rightarrow> string) \<Rightarrow> line_series \<Rightarrow> string list" where
  "SimpleLineSeries_get_element_list fmt s = [path_markup fmt s]"

subsection \<open>\<^verbatim>\<open>collapse_element_list\<close> and \<^verbatim>\<open>safe_get_element_list\<close>\<close>

text \<open>The method \<^verbatim>\<open>get_element_list\<close> of the elements is the first argument.\<close>

definition collapse_element_list :: "('a \<Rightarrow> string list) \<Rightarrow> 'a list \<Rightarrow> string list" where
  "collapse_element_list get_element_list built_ins =
     concat (map (\<lambda>built_in. get_element_list built_in) built_ins)"

definition safe_get_element_list :: "('a \<Rightarrow> string list) \<Rightarrow> 'a option \<Rightarrow> string list" where
  "safe_get_element_list get_element_list built_in =
     (case built_in of Some b \<Rightarrow> get_element_list b | None \<Rightarrow> [])"

section \<open>Axes\<close>

text \<open>
  A result that may also not return: \<open>None\<close> is a computation that runs forever,
  \<open>Some (Inl e)\<close> a raised exception, \<open>Some (Inr v)\<close> a returned value.
\<close>

type_synonym 'a result = "(error + 'a) option"

record axis =
  axis_position :: point
  axis_styles :: styles
  axis_data_points :: "pyval list"
  axis_length :: real
  axis_limits :: "pyval list"
  axis_label_format :: "pyval \<Rightarrow> string"
  axis_line :: "line option"
  tick_lines :: "line list"
  tick_text :: "text_shape list"
  grid_lines :: "line list"

definition default_axis_styles :: styles where
  "default_axis_styles = [(''stroke'', ''#2e2e2c'')]"

text \<open>\<^verbatim>\<open>Axis.__init__\<close>; its parameters \<^verbatim>\<open>axis_styles\<close> and \<^verbatim>\<open>tick_length\<close> are unused.\<close>

definition Axis_init ::
  "real \<Rightarrow> real \<Rightarrow> pyval list \<Rightarrow> real \<Rightarrow> (pyval \<Rightarrow> string) \<Rightarrow> int \<Rightarrow> axis result" where
  "Axis_init x_position y_position data_points axis_len label_format max_ticks =
     (case get_limits data_points max_ticks of
        None \<Rightarrow> None
      | Some (Inl e) \<Rightarrow> Some (Inl e)
      | Some (Inr limits) \<Rightarrow>
          Some (Inr \<lparr>axis_position = Point x_position y_position,
                     axis_styles = [],
                     axis_data_points = data_points,
                     axis_length = axis_len,
                     axis_limits = limits,
                     axis_label_format = label_format,
                     axis_line = None,
                     tick_lines = [], tick_text = [], grid_lines = []\<rparr>))"

text \<open>
  \<^verbatim>\<open>proportion_of_range\<close>: the left operand of the division is evaluated first, then the
  right one.
\<close>

definition proportion_of_range :: "axis \<Rightarrow> pyval \<Rightarrow> error + real" where
  "proportion_of_range self v =
     (case py_min (axis_limits self) of Inl e \<Rightarrow> Inl e | Inr lo \<Rightarrow>
      case py_sub v lo of Inl e \<Rightarrow> Inl e | Inr num \<Rightarrow>
      case py_max (axis_limits self) of Inl e \<Rightarrow> Inl e | Inr hi \<Rightarrow>
      case py_min (axis_limits self) of Inl e \<Rightarrow> Inl e | Inr lo' \<Rightarrow>
      case py_sub hi lo' of Inl e \<Rightarrow> Inl e | Inr den \<Rightarrow>
      py_truediv num den)"

text \<open>A list comprehension whose elements may raise: the first exception wins.\<close>

fun sequence :: "(error + 'a) list \<Rightarrow> error + 'a list" where
  "sequence [] = Inr []"
| "sequence (r # rs) =
     (case r of Inl e \<Rightarrow> Inl e | Inr v \<Rightarrow>
      case sequence rs of Inl e \<Rightarrow> Inl e | Inr vs \<Rightarrow> Inr (v # vs))"

subsection \<open>\<^verbatim>\<open>XAxis\<close>\<close>

definition x_default_tick_text_styles :: styles where
  "x_default_tick_text_styles = [(''text-anchor'', ''middle''), (''dominant-baseline'', ''hanging'')]"

text \<open>
  The loop over \<^verbatim>\<open>enumerate(self.limits)\<close>. The divisor \<^verbatim>\<open>len(self.limits) - 1\<close> is zero
  for a single limit, and the division raises in the first iteration.
\<close>

fun XAxis_ticks :: "styles \<Rightarrow> real \<Rightarrow> (nat \<times> pyval) list \<Rightarrow> axis \<Rightarrow> error + axis" where
  "XAxis_ticks st tick_length [] self = Inr self"
| "XAxis_ticks st tick_length ((i, m) # rest) self =
     (if int (length (axis_limits self)) - 1 = 0 then Inl ZeroDivisionError
      else
        let width_offset = real i * axis_length self / real_of_int (int (length (axis_limits self)) - 1)
              + point_x (axis_position self);
            self1 = self\<lparr>tick_lines := tick_lines self
              @ [Line width_offset (point_y (axis_position self)) 0 tick_length (Some st)]\<rparr>;
            self2 = self1\<lparr>tick_text := tick_text self1
              @ [Text width_offset (point_y (axis_position self1) + 2 * tick_length)
                   (axis_label_format self1 m) (Some x_default_tick_text_styles)]\<rparr>
        in XAxis_ticks st tick_length rest self2)"

text \<open>\<^verbatim>\<open>axis_styles or default\<close>: \<^verbatim>\<open>None\<close> and the empty dictionary select the default.\<close>

definition styles_or_default :: "styles option \<Rightarrow> styles \<Rightarrow> styles" where
  "styles_or_default st dflt = (case st of None \<Rightarrow> dflt | Some s \<Rightarrow> if s = [] then dflt else s)"

definition XAxis_init ::
  "real \<Rightarrow> real \<Rightarrow> pyval list \<Rightarrow> real \<Rightarrow> (pyval \<Rightarrow> string) \<Rightarrow> int \<Rightarrow> styles option \<Rightarrow> real
     \<Rightarrow> axis result" where
  "XAxis_init x_position y_position data_points axis_len label_format max_ticks ax_styles tick_length =
     (case Axis_init x_position y_position data_points axis_len label_format max_ticks of
        None \<Rightarrow> None
      | Some (Inl e) \<Rightarrow> Some (Inl e)
      | Some (Inr self) \<Rightarrow>
          let st = styles_or_default ax_styles default_axis_styles;
              self1 = self\<lparr>axis_line := Some (Line (point_x (axis_position self))
                        (point_y (axis_position self)) axis_len 0 (Some st))\<rparr>
          in Some (XAxis_ticks st tick_length (enumerate 0 (axis_limits self1)) self1))"

definition XAxis_get_positions :: "axis \<Rightarrow> pyval list \<Rightarrow> error + real list" where
  "XAxis_get_positions self vs =
     sequence (map (\<lambda>v. case proportion_of_range self v of Inl e \<Rightarrow> Inl e
        | Inr p \<Rightarrow> Inr (point_x (axis_position self) + p * axis_length self)) vs)"

subsection \<open>\<^verbatim>\<open>YAxis\<close>\<close>

definition y_default_tick_text_styles :: styles where
  "y_default_tick_text_styles = [(''text-anchor'', ''end''), (''dominant-baseline'', ''middle'')]"

fun YAxis_ticks :: "styles \<Rightarrow> real \<Rightarrow> (nat \<times> pyval) list \<Rightarrow> axis \<Rightarrow> error + axis" where
  "YAxis_ticks st tick_length [] self = Inr self"
| "YAxis_ticks st tick_length ((i, m) # rest) self =
     (if int (length (axis_limits self)) - 1 = 0 then Inl ZeroDivisionError
      else
        let height_offset = real_of_int (int (length (axis_limits self)) - 1 - int i) * axis_length self
                / real_of_int (int (length (axis_limits self)) - 1)
              + point_y (axis_position self);
            self1 = self\<lparr>tick_lines := tick_lines self
              @ [Line (point_x (axis_position self) - tick_length) height_offset tick_length 0
                   (Some st)]\<rparr>;
            self2 = self1\<lparr>tick_text := tick_text self1
              @ [Text (point_x (axis_position self1) - 2 * tick_length) height_offset
                   (axis_label_format self1 m) (Some y_default_tick_text_styles)]\<rparr>
        in YAxis_ticks st tick_length rest self2)"

definition YAxis_init ::
  "real \<Rightarrow> real \<Rightarrow> pyval list \<Rightarrow> real \<Rightarrow> (pyval \<Rightarrow> string) \<Rightarrow> int \<Rightarrow> styles option \<Rightarrow> real
     \<Rightarrow> axis result" where
  "YAxis_init x_position y_position data_points axis_len label_format max_ticks ax_styles tick_length =
     (case Axis_init x_position y_position data_points axis_len label_format max_ticks of
        None \<Rightarrow> None
      | Some (Inl e) \<Rightarrow> Some (Inl e)
      | Some (Inr self) \<Rightarrow>
          let st = styles_or_default ax_styles default_axis_styles;
              self1 = self\<lparr>axis_line := Some (Line (point_x (axis_position self))
                        (point_y (axis_position self)) 0 axis_len (Some st))\<rparr>
          in Some (YAxis_ticks st tick_length (enumerate 0 (axis_limits self1)) self1))"

definition YAxis_get_positions :: "axis \<Rightarrow> pyval list \<Rightarrow> error + real list" where
  "YAxis_get_positions self vs =
     sequence (map (\<lambda>v. case proportion_of_range self v of Inl e \<Rightarrow> Inl e
        | Inr p \<Rightarrow> Inr (point_y (axis_position self) + axis_length self * (1 - p))) vs)"

subsection \<open>\<^verbatim>\<open>SimpleXAxis\<close>\<close>

text \<open>A \<^verbatim>\<open>SimpleXAxis\<close> is built as an \<^verbatim>\<open>XAxis\<close> and places the values by their index.\<close>

definition SimpleXAxis_get_positions :: "axis \<Rightarrow> pyval list \<Rightarrow> error + real list" where
  "SimpleXAxis_get_positions self x_values =
     sequence (map (\<lambda>x. if int (length x_values) - 1 = 0 then Inl ZeroDivisionError
        else Inr (point_x (axis_position self)
               + real x * axis_length self / real_of_int (int (length x_values) - 1)))
       [0..<length x_values])"

subsection \<open>\<^verbatim>\<open>Axis.get_element_list\<close>\<close>

definition Axis_get_element_list :: "(real \<Rightarrow> string) \<Rightarrow> axis \<Rightarrow> string list" where
  "Axis_get_element_list fmt self =
     safe_get_element_list (Line_get_element_list fmt) (axis_line self)
       @ collapse_element_list (Line_get_element_list fmt) (tick_lines self)
       @ collapse_element_list (Text_get_element_list fmt) (tick_text self)
       @ collapse_element_list (Line_get_element_list fmt) (grid_lines self)"

section \<open>Legend and chart\<close>

subsection \<open>\<^verbatim>\<open>LineLegend\<close>\<close>

record line_legend =
  legend_position :: point
  legend_styles :: styles
  legend_series :: "(string \<times> line_series) list"
  legend_lines :: "line list"
  legend_texts :: "text_shape list"

definition default_line_legend_text_styles :: styles where
  "default_line_legend_text_styles = [(''alignment-baseline'', ''middle'')]"

text \<open>
  The loop of \<^verbatim>\<open>LineLegend.__init__\<close> over the names of the series, with the running
  position \<open>x_pos\<close>, \<open>y_pos\<close>.
\<close>

fun LineLegend_loop ::
  "(string \<times> line_series) list \<Rightarrow> real \<Rightarrow> real \<Rightarrow> real \<Rightarrow> real \<Rightarrow> real \<Rightarrow> real
     \<Rightarrow> line_legend \<Rightarrow> line_legend" where
  "LineLegend_loop [] element_x element_y line_length line_text_gap x_pos y_pos self = self"
| "LineLegend_loop ((name, s) # rest) element_x element_y line_length line_text_gap x_pos y_pos self =
     (let self1 = self\<lparr>legend_lines := legend_lines self
            @ [Line x_pos y_pos line_length 0 (Some (series_styles s))]\<rparr>;
          self2 = self1\<lparr>legend_texts := legend_texts self1
            @ [Text (x_pos + line_length + line_text_gap) y_pos name
                 (Some default_line_legend_text_styles)]\<rparr>
      in LineLegend_loop rest element_x element_y line_length line_text_gap
           (x_pos + element_x) (y_pos + element_y) self2)"

definition LineLegend ::
  "real \<Rightarrow> real \<Rightarrow> (string \<times> line_series) list \<Rightarrow> real \<Rightarrow> real \<Rightarrow> real \<Rightarrow> real \<Rightarrow> line_legend" where
  "LineLegend x_position y_position srs element_x element_y line_length line_text_gap =
     LineLegend_loop srs element_x element_y line_length line_text_gap x_position y_position
       \<lparr>legend_position = Point x_position y_position,
        legend_styles = [],
        legend_series = srs,
        legend_lines = [], legend_texts = []\<rparr>"

definition LineLegend_get_element_list :: "(real \<Rightarrow> string) \<Rightarrow> line_legend \<Rightarrow> string list" where
  "LineLegend_get_element_list fmt self =
     collapse_element_list (Line_get_element_list fmt) (legend_lines self)
       @ collapse_element_list (Text_get_element_list fmt) (legend_texts self)"

subsection \<open>Shapes\<close>

text \<open>
  The objects a chart holds and renders, one variant per class; the dispatch of
  \<^verbatim>\<open>get_element_list\<close> is by variant. The generic \<^verbatim>\<open>Shape\<close>, whose method raises
  \<^verbatim>\<open>NotImplementedError\<close>, is not a variant.
\<close>

datatype shape =
    ShapeLine line
  | ShapeCircle circle
  | ShapeText text_shape
  | ShapeSeries line_series
  | ShapeAxis axis
  | ShapeLegend line_legend

fun get_element_list :: "(real \<Rightarrow> string) \<Rightarrow> shape \<Rightarrow> string list" where
  "get_element_list fmt (ShapeLine l) = Line_get_element_list fmt l"
| "get_element_list fmt (ShapeCircle c) = Circle_get_element_list fmt c"
| "get_element_list fmt (ShapeText t) = Text_get_element_list fmt t"
| "get_element_list fmt (ShapeSeries s) = SimpleLineSeries_get_element_list fmt s"
| "get_element_list fmt (ShapeAxis a) = Axis_get_element_list fmt a"
| "get_element_list fmt (ShapeLegend g) = LineLegend_get_element_list fmt g"

subsection \<open>\<^verbatim>\<open>Chart\<close>\<close>

text \<open>
  The series of a chart are a dictionary from names to series, held in insertion order
  with distinct names.
\<close>

record chart =
  chart_height :: real
  chart_width :: real
  y_axis :: "axis option"
  x_axis :: "axis option"
  legend :: "line_legend option"
  series :: "(string \<times> line_series) list"
  custom_elements :: "shape list"

definition Chart_init :: "real \<Rightarrow> real \<Rightarrow> chart" where
  "Chart_init h w =
     \<lparr>chart_height = h, chart_width = w, y_axis = None, x_axis = None, legend = None,
      series = [], custom_elements = []\<rparr>"

definition add_custom_element :: "chart \<Rightarrow> shape \<Rightarrow> chart" where
  "add_custom_element self custom_element =
     self\<lparr>custom_elements := custom_elements self @ [custom_element]\<rparr>"

text \<open>
  \<^verbatim>\<open>Chart.get_element_list\<close>: the targets are the axes and the legend that are not
  \<^verbatim>\<open>None\<close>, extended by the series in the order of the dictionary and by the custom
  elements.
\<close>

definition Chart_get_element_list :: "(real \<Rightarrow> string) \<Rightarrow> chart \<Rightarrow> string list" where
  "Chart_get_element_list fmt self =
     (let targets = concat
            [case x_axis self of None \<Rightarrow> [] | Some a \<Rightarrow> [ShapeAxis a],
             case y_axis self of None \<Rightarrow> [] | Some a \<Rightarrow> [ShapeAxis a],
             case legend self of None \<Rightarrow> [] | Some g \<Rightarrow> [ShapeLegend g]];
          targets1 = targets @ map (\<lambda>(s, v). ShapeSeries v) (series self);
          targets2 = targets1 @ custom_elements self
      in concat (map (\<lambda>t. get_element_list fmt t) targets2))"

definition render :: "(real \<Rightarrow> string) \<Rightarrow> chart \<Rightarrow> string" where
  \<open>render fmt self =
     py_join [CHR 0x0A]
       ([''<svg viewBox="0 0 '' @ fmt (chart_width self) @ '' '' @ fmt (chart_height self)
           @ ''" xmlns="http://www.w3.org/2000/svg">'']
        @ Chart_get_element_list fmt self @ [''</svg>''])\<close>

subsection \<open>Grid lines\<close>

definition default_major_grid_styles :: styles where
  "default_major_grid_styles = [(''stroke'', ''#2e2e2c'')]"

definition default_minor_grid_styles :: styles where
  "default_minor_grid_styles = [(''stroke'', ''#2e2e2c''), (''stroke-width'', ''0.4'')]"

definition style_or :: "styles option \<Rightarrow> styles \<Rightarrow> styles" where
  "style_or st dflt = (case st of None \<Rightarrow> dflt | Some s \<Rightarrow> s)"

text \<open>
  \<^verbatim>\<open>add_y_grid\<close>. The outer loop runs over \<^verbatim>\<open>enumerate(self.x_axis.limits[1:])\<close>, the inner
  one over \<^verbatim>\<open>range(1, minor_ticks + 1)\<close>; both append to the grid lines of the y axis.
  Inside the outer loop the x axis has at least two limits, so only the divisor
  \<^verbatim>\<open>minor_ticks + 1\<close> can be zero.
\<close>

fun add_y_grid_loop ::
  "(nat \<times> pyval) list \<Rightarrow> int \<Rightarrow> styles \<Rightarrow> styles \<Rightarrow> axis \<Rightarrow> axis \<Rightarrow> error + axis" where
  "add_y_grid_loop [] minor_ticks major_style minor_style xa ya = Inr ya"
| "add_y_grid_loop ((i, m) # rest) minor_ticks major_style minor_style xa ya =
     (let width_offset = real_of_int (int i + 1) * axis_length xa
              / real_of_int (int (length (axis_limits xa)) - 1)
            + point_x (axis_position ya);
          ya1 = ya\<lparr>grid_lines := grid_lines ya
            @ [Line width_offset (point_y (axis_position xa) - axis_length ya) 0 (axis_length ya)
                 (Some major_style)]\<rparr>
      in if minor_ticks + 1 = 0 then Inl ZeroDivisionError
         else
           let minor_step = axis_length xa / real_of_int (int (length (axis_limits xa)) - 1)
                 / real_of_int (minor_ticks + 1);
               ya2 = fold (\<lambda>j y. y\<lparr>grid_lines := grid_lines y
                   @ [Line (width_offset - real_of_int j * minor_step)
                        (point_y (axis_position xa) - axis_length y) 0 (axis_length y)
                        (Some minor_style)]\<rparr>)
                 [1..minor_ticks] ya1
           in add_y_grid_loop rest minor_ticks major_style minor_style xa ya2)"

definition add_y_grid :: "chart \<Rightarrow> int \<Rightarrow> styles option \<Rightarrow> styles option \<Rightarrow> error + chart" where
  "add_y_grid self minor_ticks major_grid_style minor_grid_style =
     (let major_style = style_or major_grid_style default_major_grid_styles;
          minor_style = style_or minor_grid_style default_minor_grid_styles
      in case x_axis self of
           None \<Rightarrow> Inl AttributeError
         | Some xa \<Rightarrow>
             if tl (axis_limits xa) = [] then Inr self
             else case y_axis self of
               None \<Rightarrow> Inl AttributeError
             | Some ya \<Rightarrow>
                 (case add_y_grid_loop (enumerate 0 (tl (axis_limits xa))) minor_ticks
                         major_style minor_style xa ya of
                    Inl e \<Rightarrow> Inl e
                  | Inr ya' \<Rightarrow> Inr (self\<lparr>y_axis := Some ya'\<rparr>)))"

text \<open>
  \<^verbatim>\<open>add_x_grid\<close>. The outer loop runs over \<^verbatim>\<open>enumerate(self.y_axis.limits[1:])\<close> and
  appends the major line to \<^verbatim>\<open>self.x_axis.grid_lines\<close>; the inner loop appends the minor
  lines to \<^verbatim>\<open>self.y_axis.grid_lines\<close>, as the source has it.
\<close>

fun add_x_grid_loop ::
  "(nat \<times> pyval) list \<Rightarrow> int \<Rightarrow> styles \<Rightarrow> styles \<Rightarrow> axis \<times> axis \<Rightarrow> error + axis \<times> axis" where
  "add_x_grid_loop [] minor_ticks major_style minor_style (xa, ya) = Inr (xa, ya)"
| "add_x_grid_loop ((i, m) # rest) minor_ticks major_style minor_style (xa, ya) =
     (let height_offset = real_of_int (int (length (axis_limits ya)) - 2 - int i) * axis_length ya
              / real_of_int (int (length (axis_limits ya)) - 1)
            + point_y (axis_position xa);
          xa1 = xa\<lparr>grid_lines := grid_lines xa
            @ [Line (point_x (axis_position ya)) (height_offset - axis_length ya) (axis_length xa) 0
                 (Some major_style)]\<rparr>
      in if minor_ticks + 1 = 0 then Inl ZeroDivisionError
         else
           let minor_step = axis_length ya / real_of_int (int (length (axis_limits ya)) - 1)
                 / real_of_int (minor_ticks + 1);
               ya1 = fold (\<lambda>j y. y\<lparr>grid_lines := grid_lines y
                   @ [Line (point_x (axis_position y))
                        (height_offset + real_of_int j * minor_step - axis_length y)
                        (axis_length xa1) 0 (Some minor_style)]\<rparr>)
                 [1..minor_ticks] ya
           in add_x_grid_loop rest minor_ticks major_style minor_style (xa1, ya1))"

definition add_x_grid :: "chart \<Rightarrow> int \<Rightarrow> styles option \<Rightarrow> styles option \<Rightarrow> error + chart" where
  "add_x_grid self minor_ticks major_grid_style minor_grid_style =
     (let major_style = style_or major_grid_style default_major_grid_styles;
          minor_style = style_or minor_grid_style default_minor_grid_styles
      in case y_axis self of
           None \<Rightarrow> Inl AttributeError
         | Some ya \<Rightarrow>
             if tl (axis_limits ya) = [] then Inr self
             else case x_axis self of
               None \<Rightarrow> Inl AttributeError
             | Some xa \<Rightarrow>
                 (case add_x_grid_loop (enumerate 0 (tl (axis_limits ya))) minor_ticks
                         major_style minor_style (xa, ya) of
                    Inl e \<Rightarrow> Inl e
                  | Inr (xa', ya') \<Rightarrow> Inr (self\<lparr>x_axis := Some xa', y_axis := Some ya'\<rparr>)))"

definition add_grids ::
  "chart \<Rightarrow> int \<Rightarrow> int \<Rightarrow> styles option \<Rightarrow> styles option \<Rightarrow> error + chart" where
  "add_grids self minor_x_ticks minor_y_ticks major_grid_style minor_grid_style =
     (case add_y_grid self minor_y_ticks major_grid_style minor_grid_style of
        Inl e \<Rightarrow> Inl e
      | Inr self1 \<Rightarrow> add_x_grid self1 minor_x_ticks major_grid_style minor_grid_style)"

subsection \<open>\<^verbatim>\<open>SimpleLineChart\<close>\<close>

definition line_colour_defaults :: "string list" where
  "line_colour_defaults = [''green'', ''red'', ''blue'']"

text \<open>\<^verbatim>\<open>'Series {0}'.format(range(n))\<close>: a range prints as \<^verbatim>\<open>range(0, n)\<close>.\<close>

definition default_series_name :: "nat \<Rightarrow> string" where
  "default_series_name n = ''Series range(0, '' @ str_of_nat n @ '')''"

text \<open>
  The dictionary comprehension that builds the series: for every pair of
  \<^verbatim>\<open>zip(series_names, y_values)\<close> the points are computed and the series is stored under
  its name, replacing an earlier series of the same name in place.
\<close>

fun build_series ::
  "axis \<Rightarrow> axis \<Rightarrow> pyval list \<Rightarrow> (string \<times> pyval list) list \<Rightarrow> (string \<times> line_series) list
     \<Rightarrow> error + (string \<times> line_series) list" where
  "build_series xa ya x_values [] acc = Inr acc"
| "build_series xa ya x_values ((name, y_value) # rest) acc =
     (case SimpleXAxis_get_positions xa x_values of Inl e \<Rightarrow> Inl e | Inr xs \<Rightarrow>
      case YAxis_get_positions ya y_value of Inl e \<Rightarrow> Inl e | Inr ys \<Rightarrow>
      case SimpleLineSeries (map (\<lambda>(px, py). Point px py) (zip xs ys)) of Inl e \<Rightarrow> Inl e | Inr s \<Rightarrow>
      build_series xa ya x_values rest (AList.update name s acc))"

text \<open>
  The loop over \<^verbatim>\<open>enumerate(self.series)\<close> that assigns the default stroke colours;
  \<^verbatim>\<open>__line_colour_defaults__[index]\<close> raises \<^verbatim>\<open>IndexError\<close> from the fourth series on.
\<close>

fun assign_colours ::
  "(nat \<times> string) list \<Rightarrow> (string \<times> line_series) list \<Rightarrow> error + (string \<times> line_series) list" where
  "assign_colours [] srs = Inr srs"
| "assign_colours ((index, name) # rest) srs =
     (if index < length line_colour_defaults then
        assign_colours rest
          (AList.map_entry name
             (\<lambda>s. s\<lparr>series_styles :=
                AList.update ''stroke'' (line_colour_defaults ! index) (series_styles s)\<rparr>) srs)
      else Inl IndexError)"

definition SimpleLineChart_init ::
  "pyval list \<Rightarrow> pyval list list \<Rightarrow> string list option \<Rightarrow> int \<Rightarrow> int \<Rightarrow> real \<Rightarrow> real \<Rightarrow> real \<Rightarrow> real
     \<Rightarrow> (pyval \<Rightarrow> string) \<Rightarrow> (pyval \<Rightarrow> string) \<Rightarrow> chart result" where
  "SimpleLineChart_init x_values y_values y_names x_max_ticks y_max_ticks x_margin y_margin h w
       x_labels y_labels =
     (let self = Chart_init h w;
          series_names = (case y_names of Some names \<Rightarrow> names
                          | None \<Rightarrow> [default_series_name (length y_values)]);
          all_y_values = concat y_values
      in case YAxis_init x_margin y_margin all_y_values (h - 2 * y_margin) y_labels y_max_ticks
                None 5 of
           None \<Rightarrow> None
         | Some (Inl e) \<Rightarrow> Some (Inl e)
         | Some (Inr ya) \<Rightarrow>
        (case XAxis_init x_margin (h - y_margin) x_values (w - 2 * x_margin) x_labels x_max_ticks
                None 5 of
           None \<Rightarrow> None
         | Some (Inl e) \<Rightarrow> Some (Inl e)
         | Some (Inr xa) \<Rightarrow>
        (case build_series xa ya x_values (zip series_names y_values) [] of
           Inl e \<Rightarrow> Some (Inl e)
         | Inr srs \<Rightarrow>
        (case assign_colours (enumerate 0 (map fst srs)) srs of
           Inl e \<Rightarrow> Some (Inl e)
         | Inr srs' \<Rightarrow>
             Some (Inr (self\<lparr>y_axis := Some ya, x_axis := Some xa, series := srs'\<rparr>))))))"

definition add_legend ::
  "chart \<Rightarrow> real \<Rightarrow> real \<Rightarrow> real \<Rightarrow> real \<Rightarrow> real \<Rightarrow> real \<Rightarrow> chart" where
  "add_legend self x_position y_position element_x element_y line_length line_text_gap =
     self\<lparr>legend := Some (LineLegend x_position y_position (series self) element_x element_y
        line_length line_text_gap)\<rparr>"

section \<open>Definitions for stating the properties\<close>

subsection \<open>The step rule as the specification words it\<close>

text \<open>
  The specification's step: \<open>m\<close> is the floor of the logarithm of the raw step, \<open>r\<close> its
  fractional part, and the leader is snapped at the thresholds 0.301 and 0.698.
\<close>

definition spec_step :: "real list \<Rightarrow> int \<Rightarrow> real" where
  "spec_step values maxTicks =
     (let lo = Min (set values); hi = Max (set values);
          rawStep = (1.2 * hi - 0.95 * lo) / real_of_int maxTicks;
          m = \<lfloor>log 10 \<bar>rawStep\<bar>\<rfloor>;
          r = log 10 \<bar>rawStep\<bar> - real_of_int m;
          leader = (if r < 0.301 then 2 else if r < 0.698 then 5 else 10)
      in leader * 10 powi m)"

subsection \<open>Months as the specification counts them\<close>

text \<open>
  Months are numbered consecutively: \<open>month_index\<close> is the number of a date's month,
  \<open>month_start\<close> the first day of the month with a given number, and \<open>add_months\<close> moves
  a date by whole months to the first day of the reached month.
\<close>

definition month_index :: "date \<Rightarrow> int" where
  "month_index d = year d * 12 + (month d - 1)"

definition month_start :: "int \<Rightarrow> date" where
  "month_start k = Date (k div 12) (k mod 12 + 1) 1"

definition add_months :: "date \<Rightarrow> int \<Rightarrow> date" where
  "add_months d k = month_start (month_index d + k)"

definition first_of_month :: "date \<Rightarrow> date" where
  "first_of_month d = Date (year d) (month d) 1"

text \<open>
  The date-like values of Python: a \<^verbatim>\<open>datetime.date\<close> is a valid calendar date of the
  years \<^verbatim>\<open>MINYEAR\<close> to \<^verbatim>\<open>MAXYEAR\<close>, a \<^verbatim>\<open>datetime.datetime\<close> such a date with less than a
  day of microseconds. A date input is a non-empty list of dates or a non-empty list of
  datetimes.
\<close>

definition py_date :: "date \<Rightarrow> bool" where
  "py_date d = (valid_date d \<and> MINYEAR \<le> year d \<and> year d \<le> MAXYEAR)"

fun is_py_date :: "pyval \<Rightarrow> bool" where
  "is_py_date (PDate d) = py_date d"
| "is_py_date _ = False"

fun is_py_datetime :: "pyval \<Rightarrow> bool" where
  "is_py_datetime (PDatetime d s) = (py_date d \<and> int s < us_per_day)"
| "is_py_datetime _ = False"

definition date_values :: "pyval list \<Rightarrow> bool" where
  "date_values vs = (vs \<noteq> [] \<and> (list_all is_py_date vs \<or> list_all is_py_datetime vs))"

text \<open>
  The place of a date-like value on the time line, in microseconds, and the span between
  two of them in days: the whole days, as the attribute \<^verbatim>\<open>.days\<close> counts them.
\<close>

fun timestamp :: "pyval \<Rightarrow> int" where
  "timestamp (PDate d) = toordinal d * us_per_day"
| "timestamp (PDatetime d s) = toordinal d * us_per_day + int s"
| "timestamp _ = 0"

definition span_days :: "pyval \<Rightarrow> pyval \<Rightarrow> int" where
  "span_days lo hi = (timestamp hi - timestamp lo) div us_per_day"

text \<open>
  The interval of the specification: the smallest candidate among 1, 2, 3, 6 and 12 months
  that is at least the raw interval, and 12 if there is none; the raw interval is the span
  in days, over 30, over the tick budget.
\<close>

definition spec_interval :: "real \<Rightarrow> int" where
  "spec_interval rawInterval =
     (let qualifying = {c \<in> {1, 2, 3, 6, 12}. rawInterval \<le> real_of_int c}
      in if qualifying = {} then 12 else Min qualifying)"

definition spec_raw_interval :: "pyval \<Rightarrow> pyval \<Rightarrow> int \<Rightarrow> real" where
  "spec_raw_interval lo hi maxTicks =
     (real_of_int (span_days lo hi) / 30) / real_of_int maxTicks"

text \<open>
  The ticks of the specification: tick \<open>j\<close> is \<open>j\<close> intervals after the first day of the
  month of the smallest date, and the boundary is the first day of the month after the
  month of the largest date.
\<close>

definition spec_tick :: "date \<Rightarrow> int \<Rightarrow> nat \<Rightarrow> date" where
  "spec_tick lo interval j = add_months (first_of_month lo) (int j * interval)"

definition spec_boundary :: "date \<Rightarrow> date" where
  "spec_boundary hi = add_months (first_of_month hi) 1"

subsection \<open>Auxiliary quantities\<close>

text \<open>The number of ticks from month \<open>a\<close> up to month \<open>b\<close> in steps of \<open>iv\<close> months.\<close>

definition tick_count :: "int \<Rightarrow> int \<Rightarrow> int \<Rightarrow> nat" where
  "tick_count iv a b = (if a \<le> b then nat ((b - a) div iv) + 1 else 0)"

text \<open>The step between consecutive limits that \<open>get_numeric_limits\<close> computes.\<close>

definition code_step :: "real \<Rightarrow> real \<Rightarrow> int \<Rightarrow> real" where
  "code_step lo hi max_ticks =
     (let raw_pad = (1.2 * hi - 0.95 * lo) / real_of_int max_ticks;
          lg = log 10 \<bar>raw_pad\<bar>;
          remainder = lg - real_of_int (py_int lg);
          leader = (if remainder < 0.301 then 2 else (if remainder < 0.698 then 5 else 10))
      in leader * 10 powi py_int lg)"

definition days_in_year :: "int \<Rightarrow> int" where
  "days_in_year y = (if is_leap y then 366 else 365)"

text \<open>
  A list of ticks that are all valid calendar dates, and a date that is the first day of
  a month; the second is the invariant of the tick loop.
\<close>

definition date_ticks :: "pyval list \<Rightarrow> bool" where
  "date_ticks vs = (\<forall>v \<in> set vs. \<exists>d. v = PDate d \<and> valid_date d)"

definition is_month_start :: "date \<Rightarrow> bool" where
  "is_month_start d = (1 \<le> month d \<and> month d \<le> 12 \<and> day d = 1)"

subsection \<open>Example inputs and projections\<close>

text \<open>A label format for the examples, and the names of the series of a constructed chart.\<close>

definition no_label :: "pyval \<Rightarrow> string" where
  "no_label v = []"

definition series_names :: "chart result \<Rightarrow> string list result" where
  "series_names r = map_option (map_sum id (\<lambda>c. map fst (series c))) r"

section \<open>Properties of the limit computation\<close>

subsection \<open>Bounds on decimal logarithms\<close>

lemma log10_bounds:
  assumes "0 < x" "(10::real) ^ p \<le> x ^ q" "x ^ q < 10 ^ p'" "0 < q"
  shows "real p / real q \<le> log 10 x" "log 10 x < real p' / real q"
proof -
  have xq: "0 < x ^ q" using assms(1) by simp
  have e: "log 10 (x ^ q) = real q * log 10 x" using assms(1) by (simp add: log_nat_power)
  have "log 10 ((10::real) ^ p) \<le> log 10 (x ^ q)"
    using assms(2) xq by (subst log_le_cancel_iff) simp_all
  then have lo: "real p \<le> real q * log 10 x" using e by (simp add: log_nat_power)
  have "log 10 (x ^ q) < log 10 ((10::real) ^ p')"
    using assms(3) xq by (subst log_less_cancel_iff) simp_all
  then have hi: "real q * log 10 x < real p'" using e by (simp add: log_nat_power)
  show "real p / real q \<le> log 10 x" "log 10 x < real p' / real q"
    using assms(4) lo hi by (simp_all add: field_simps)
qed

lemma py_int_zero: "- 1 < x \<Longrightarrow> x < 1 \<Longrightarrow> py_int x = 0"
  unfolding py_int_def by (auto simp: floor_eq_iff ceiling_eq_iff)

lemma log_7_2: "2 / 5 \<le> log 10 (7 / 2 :: real)" "log 10 (7 / 2 :: real) < 3 / 5"
  using log10_bounds[of "7 / 2" 2 5 3] by (simp_all add: power_divide)

lemma log_13_10: "0 \<le> log 10 (13 / 10 :: real)" "log 10 (13 / 10 :: real) < 3 / 10"
  using log10_bounds[of "13 / 10" 0 10 3] by (simp_all add: power_divide)

lemma log_3: "2 / 5 \<le> log 10 (3 :: real)" "log 10 (3 :: real) < 3 / 5"
  using log10_bounds[of "3" 2 5 3] by (simp_all add: power_divide)

lemma log_3_10: "log 10 (3 / 10 :: real) = log 10 3 - 1"
  by (simp add: log_divide)

lemma py_int_log_7_2: "py_int (log 10 (7 / 2)) = 0"
  using log_7_2 by (intro py_int_zero) linarith+

lemma py_int_log_13_10: "py_int (log 10 (13 / 10)) = 0"
  using log_13_10 by (intro py_int_zero) linarith+

lemma py_int_log_3_10: "py_int (log 10 3 - 1) = 0"
  using log_3 by (intro py_int_zero) linarith+

lemma upto_0_1: "[0..1::int] = [0, 1]"
  by code_simp

subsection \<open>Data below zero\<close>

text \<open>
  Claim C1 (bracketing invariant: the smallest limit is at most the smallest value and the
  largest limit at least the largest value). The limits bracket the padded interval from
  \<open>0.95 * min\<close> to \<open>1.2 * max\<close>, which for negative data lies inside the data's range:
  for the values \<open>-100\<close> and \<open>-50\<close> with ten ticks the limits run from \<open>-95\<close> to \<open>-60\<close>,
  so the smallest limit is above the smallest value and the largest limit below the largest
  value.
\<close>

theorem get_numeric_limits_negative_data:
  "get_numeric_limits [PNum (- 100), PNum (- 50)] 10 =
     Inr [PNum (- 95), PNum (- 90), PNum (- 85), PNum (- 80),
          PNum (- 75), PNum (- 70), PNum (- 65), PNum (- 60)]
   \<and> py_min [PNum (- 95), PNum (- 90), PNum (- 85), PNum (- 80),
          PNum (- 75), PNum (- 70), PNum (- 65), PNum (- 60)] = Inr (PNum (- 95))
   \<and> py_max [PNum (- 95), PNum (- 90), PNum (- 85), PNum (- 80),
          PNum (- 75), PNum (- 70), PNum (- 65), PNum (- 60)] = Inr (PNum (- 60))
   \<and> py_min [PNum (- 100), PNum (- 50)] = Inr (PNum (- 100))
   \<and> py_max [PNum (- 100), PNum (- 50)] = Inr (PNum (- 50))"
proof (intro conjI)
  have "\<not> log 10 (7 / 2 :: real) < 0.301" "log 10 (7 / 2 :: real) < 0.698"
    using log_7_2 by simp_all
  then show "get_numeric_limits [PNum (- 100), PNum (- 50)] 10 =
     Inr [PNum (- 95), PNum (- 90), PNum (- 85), PNum (- 80),
          PNum (- 75), PNum (- 70), PNum (- 65), PNum (- 60)]"
    by (simp add: get_numeric_limits_def log10_def py_int_log_7_2 Let_def)
  show "py_min [PNum (- 95), PNum (- 90), PNum (- 85), PNum (- 80),
          PNum (- 75), PNum (- 70), PNum (- 65), PNum (- 60)] = Inr (PNum (- 95))"
    by simp
  show "py_max [PNum (- 95), PNum (- 90), PNum (- 85), PNum (- 80),
          PNum (- 75), PNum (- 70), PNum (- 65), PNum (- 60)] = Inr (PNum (- 60))"
    by simp
  show "py_min [PNum (- 100), PNum (- 50)] = Inr (PNum (- 100))"
    by simp
  show "py_max [PNum (- 100), PNum (- 50)] = Inr (PNum (- 50))"
    by simp
qed

subsection \<open>Results with fewer than two limits\<close>

lemma toordinal_2024_8_20: "toordinal (Date 2024 8 20) - toordinal (Date 2024 1 15) = 218"
  by code_simp

lemma date_add_days_2024_8_1: "date_add_days (Date 2024 8 1) 31 = Date 2024 9 1"
  by (simp add: date_add_days_def eval_nat_numeral next_day_def days_in_month_def is_leap_def)

lemma datetime_2024:
  "datetime 2024 1 1 = Inr (Date 2024 1 1)" "datetime 2024 8 1 = Inr (Date 2024 8 1)"
  "datetime 2024 9 1 = Inr (Date 2024 9 1)" "datetime 2025 1 1 = Inr (Date 2025 1 1)"
  by (simp_all add: datetime_def MINYEAR_def MAXYEAR_def days_in_month_def)

lemma tick_loop_2024:
  "tick_loop 12 (Date 2024 9 1) (Date 2024 1 1) [] = Some (Inr [PDate (Date 2024 1 1)])"
  by (subst tick_loop.simps, simp add: date_le_def date_lt_def Let_def datetime_2024)+

lemma get_big_date_limits_one_tick:
  "get_big_date_limits [PDate (Date 2024 1 15), PDate (Date 2024 8 20)] 1 =
     Some (Inr [PDate (Date 2024 1 1)])"
  by (simp add: get_big_date_limits_def date_lt_def toordinal_2024_8_20 datetime_2024
      datetime_add_days_def date_add_days_2024_8_1 MAXYEAR_def tick_loop_2024 us_per_day_def)

text \<open>
  Claim C2 (a strictly increasing sequence of at least two limits for every valid input).
  For the numbers \<open>-100\<close> and \<open>-90\<close> with ten ticks the last tick index is below the first
  and the result is the empty list; for the dates 2024-01-15 and 2024-08-20 with one tick
  the interval is twelve months and the result is the single date 2024-01-01.
\<close>

theorem get_limits_fewer_than_two:
  "get_limits [PNum (- 100), PNum (- 90)] 10 = Some (Inr [])
   \<and> get_limits [PDate (Date 2024 1 15), PDate (Date 2024 8 20)] 1 =
       Some (Inr [PDate (Date 2024 1 1)])"
proof
  have "log 10 (13 / 10 :: real) < 0.301"
    using log_13_10 by simp
  then show "get_limits [PNum (- 100), PNum (- 90)] 10 = Some (Inr [])"
    by (simp add: get_limits_def get_numeric_limits_def log10_def py_int_log_13_10 Let_def)
  show "get_limits [PDate (Date 2024 1 15), PDate (Date 2024 8 20)] 1 =
       Some (Inr [PDate (Date 2024 1 1)])"
    by (simp add: get_limits_def get_big_date_limits_one_tick)
qed

subsection \<open>Raw steps below one\<close>

text \<open>
  Claim C3 (consecutive limits differ by the step \<open>leader * 10^m\<close> with \<open>m\<close> the floor of
  the logarithm of the raw step). The code rounds the logarithm towards zero, which is
  the floor only for raw steps of at least one. For the values 0 and 1 with four ticks the
  raw step is 0.3: the code's limits are 0 and 2, while the step of the specification
  is 0.5.
\<close>

theorem get_numeric_limits_step_below_one:
  "get_numeric_limits [PNum 0, PNum 1] 4 = Inr [PNum 0, PNum 2]
   \<and> spec_step [0, 1] 4 = 1 / 2"
proof
  have l: "log 10 3 - 1 < (0.301 :: real)" using log_3 by simp
  show "get_numeric_limits [PNum 0, PNum 1] 4 = Inr [PNum 0, PNum 2]"
    using l
    by (simp add: get_numeric_limits_def log10_def log_3_10 py_int_log_3_10 Let_def upto_0_1)
  have f: "\<lfloor>log 10 3 - 1 :: real\<rfloor> = - 1"
    using log_3 by (simp add: floor_eq_iff)
  have "\<not> log 10 (3::real) < 0.301" "log 10 (3::real) < 0.698" using log_3 by simp_all
  then show "spec_step [0, 1] 4 = 1 / 2"
    using f by (simp add: spec_step_def Let_def log_3_10)
qed

subsection \<open>A raw step of zero\<close>

text \<open>
  Claim C4 (an error is raised exactly for an empty collection, fewer than two distinct
  elements, mixed types or a non-positive date span). The two distinct numbers \<open>-120\<close>
  and \<open>-95\<close> give \<open>1.2 * -95 = 0.95 * -120\<close>, a raw step of zero, and the logarithm
  raises \<^verbatim>\<open>ValueError\<close>.
\<close>

theorem get_limits_raw_step_zero:
  "get_limits [PNum (- 120), PNum (- 95)] 10 = Some (Inl (ValueError ''math domain error''))"
  by (simp add: get_limits_def get_numeric_limits_def log10_def)

section \<open>The calendar and the date ticks\<close>

text \<open>
  First the arithmetic of consecutive month numbers and the closed form of the tick loop,
  then the end of the tick range (31 days after the first of a month lie in the next
  month), the interval rule, \<^verbatim>\<open>min\<close> and \<^verbatim>\<open>max\<close> over dates, and the monotonicity of the
  day ordinal on valid dates.
\<close>

lemma split12: "\<exists>q r. (a::int) = 12 * q + r \<and> 0 \<le> r \<and> r < 12 \<and> a div 12 = q \<and> a mod 12 = r"
  by (rule exI[of _ "a div 12"], rule exI[of _ "a mod 12"]) simp

lemma lex12:
  fixes qa ra qb rb :: int
  assumes "0 \<le> ra" "ra < 12" "0 \<le> rb" "rb < 12"
  shows "(12 * qa + ra < 12 * qb + rb) = (qa < qb \<or> (qa = qb \<and> ra < rb))"
proof (cases "qa < qb")
  case True then show ?thesis using assms by (simp; linarith)
next
  case False
  show ?thesis
  proof (cases "qa = qb")
    case True then show ?thesis by simp
  next
    case f: False
    then have "qb < qa" using False by linarith
    then show ?thesis using assms by (simp; linarith)
  qed
qed

lemma date_lt_month_start: "date_lt (month_start a) (month_start b) \<longleftrightarrow> a < b"
proof -
  obtain qa ra where a: "a = 12 * qa + ra" "0 \<le> ra" "ra < 12" "a div 12 = qa" "a mod 12 = ra"
    using split12[of a] by blast
  obtain qb rb where b: "b = 12 * qb + rb" "0 \<le> rb" "rb < 12" "b div 12 = qb" "b mod 12 = rb"
    using split12[of b] by blast
  have "date_lt (month_start a) (month_start b) \<longleftrightarrow> qa < qb \<or> (qa = qb \<and> ra < rb)"
    unfolding month_start_def date_lt_def a(4,5) b(4,5) by auto
  also have "\<dots> \<longleftrightarrow> a < b" unfolding a(1) b(1) using lex12[OF a(2,3) b(2,3)] by simp
  finally show ?thesis .
qed

lemma month_start_inj: "month_start a = month_start b \<longleftrightarrow> a = b"
proof
  assume e: "month_start a = month_start b"
  have "\<not> a < b" "\<not> b < a"
    using date_lt_month_start[of a b] date_lt_month_start[of b a] e by (simp_all add: date_lt_def)
  then show "a = b" by linarith
qed simp

lemma tick_step:
  "Date (year (month_start a) + (month (month_start a) + iv - 1) div 12)
        ((month (month_start a) + iv - 1) mod 12 + 1) 1 = month_start (a + iv)"
proof -
  have e: "a + iv = (a mod 12 + iv) + (a div 12) * 12" by simp
  have "(a + iv) div 12 = a div 12 + (a mod 12 + iv) div 12"
    by (subst e, subst div_mult_self1) simp_all
  moreover have "(a + iv) mod 12 = (a mod 12 + iv) mod 12"
    by (subst e, subst mod_mult_self1) simp
  ultimately show ?thesis
    by (simp add: month_start_def)
qed

lemma date_le_month_start: "date_le (month_start a) (month_start b) \<longleftrightarrow> a \<le> b"
  unfolding date_le_def by (auto simp: date_lt_month_start month_start_inj)

lemma tick_step_year:
  "year (month_start a) + (month (month_start a) + iv - 1) div 12 = (a + iv) div 12"
  using arg_cong[OF tick_step[of a iv], of year] by (simp add: month_start_def)

lemma tick_step_month:
  "(month (month_start a) + iv - 1) mod 12 + 1 = (a + iv) mod 12 + 1"
  using arg_cong[OF tick_step[of a iv], of month] by (simp add: month_start_def)

lemma days_in_month_bounds: "28 \<le> days_in_month y m" "days_in_month y m \<le> 31"
  by (simp_all add: days_in_month_def)

text \<open>The constructor on the first day of a month, given by the number of the month.\<close>

lemma datetime_month_start:
  assumes "12 \<le> k"
  shows "datetime (k div 12) (k mod 12 + 1) 1 =
     (if MAXYEAR < k div 12 then
        Inl (ValueError (''year '' @ str_of_int (k div 12) @ '' is out of range''))
      else Inr (month_start k))"
proof -
  have y: "\<not> k div 12 < 1" using assms by simp
  have m: "\<not> k mod 12 + 1 < 1" "\<not> 12 < k mod 12 + 1" by simp_all
  have d: "\<not> days_in_month (k div 12) (k mod 12 + 1) < 1"
    using days_in_month_bounds(1)[of "k div 12" "k mod 12 + 1"] by linarith
  show ?thesis
    unfolding datetime_def MINYEAR_def month_start_def
    by (simp only: y m d simp_thms if_False less_irrefl)
qed

lemma tick_loop_unfold:
  "tick_loop iv (month_start b) (month_start a) acc =
     (if a \<le> b then
        (case datetime ((a + iv) div 12) ((a + iv) mod 12 + 1) 1 of
           Inl e \<Rightarrow> Some (Inl e)
         | Inr next_tick \<Rightarrow> tick_loop iv (month_start b) next_tick (acc @ [PDate (month_start a)]))
      else Some (Inr acc))"
  by (subst tick_loop.simps)
     (simp only: date_le_month_start Let_def tick_step_year tick_step_month)

lemma tick_count_step:
  assumes "0 < iv" "a \<le> b"
  shows "tick_count iv a b = Suc (tick_count iv (a + iv) b)"
proof (cases "a + iv \<le> b")
  case True
  have "(b - a) div iv = (b - (a + iv) + iv) div iv" by simp
  also have "\<dots> = (b - (a + iv)) div iv + 1" using assms(1) by (subst div_add_self2) simp_all
  finally have d: "(b - a) div iv = (b - (a + iv)) div iv + 1" .
  have nn: "0 \<le> (b - (a + iv)) div iv" using True assms(1) by (simp add: pos_imp_zdiv_nonneg_iff)
  show ?thesis using True assms(2) nn unfolding tick_count_def d by (simp add: nat_add_distrib)
next
  case False
  have "(b - a) div iv = 0" using False assms by (simp add: div_pos_pos_trivial)
  then show ?thesis using False assms(2) unfolding tick_count_def by simp
qed

text \<open>
  The closed form of the loop, for a positive interval, a first month in the calendar
  and an end in the calendar: the ticks up to the end are collected, and the loop raises
  when the first tick after the end is in a year after \<^verbatim>\<open>MAXYEAR\<close>.
\<close>

lemma tick_loop_closed:
  assumes "0 < iv" "b div 12 \<le> MAXYEAR"
  shows "12 \<le> a \<Longrightarrow> tick_loop iv (month_start b) (month_start a) acc =
     (if a \<le> b \<and> MAXYEAR < (a + int (tick_count iv a b) * iv) div 12 then
        Some (Inl (ValueError (''year '' @ str_of_int ((a + int (tick_count iv a b) * iv) div 12)
           @ '' is out of range'')))
      else Some (Inr (acc @ map (\<lambda>j. PDate (month_start (a + int j * iv))) [0..<tick_count iv a b])))"
proof (induction "nat (b + 1 - a)" arbitrary: a acc rule: less_induct)
  case less
  show ?case
  proof (cases "a \<le> b")
    case False
    then show ?thesis by (subst tick_loop_unfold) (simp add: tick_count_def)
  next
    case True
    have m: "nat (b + 1 - (a + iv)) < nat (b + 1 - a)" using True assms(1) by linarith
    have a': "12 \<le> a + iv" using less.prems assms(1) by linarith
    have n: "tick_count iv a b = Suc (tick_count iv (a + iv) b)"
      by (rule tick_count_step[OF assms(1) True])
    have e: "a + int (Suc k) * iv = a + iv + int k * iv" for k
      by (simp add: algebra_simps)
    have s: "map (\<lambda>j. PDate (month_start (a + int j * iv))) [0..<Suc k] =
        PDate (month_start a) # map (\<lambda>j. PDate (month_start (a + iv + int j * iv))) [0..<k]" for k
      by (simp add: map_upt_Suc algebra_simps del: upt_Suc)
    show ?thesis
    proof (cases "MAXYEAR < (a + iv) div 12")
      case over: True
      have "b div 12 < (a + iv) div 12" using over assms(2) by linarith
      then have "\<not> a + iv \<le> b" using zdiv_mono1[of "a + iv" b 12] by linarith
      then have "tick_count iv (a + iv) b = 0" by (simp add: tick_count_def)
      then have n1: "tick_count iv a b = Suc 0" using n by simp
      show ?thesis
        by (subst tick_loop_unfold) (simp add: True datetime_month_start[OF a'] over n1)
    next
      case inside: False
      have u: "tick_loop iv (month_start b) (month_start a) acc =
          tick_loop iv (month_start b) (month_start (a + iv)) (acc @ [PDate (month_start a)])"
        by (subst tick_loop_unfold) (simp add: True datetime_month_start[OF a'] inside)
      show ?thesis
      proof (cases "a + iv \<le> b")
        case True
        show ?thesis
          unfolding u less(1)[OF m a'] n e s using True \<open>a \<le> b\<close> by simp
      next
        case False
        then have "tick_count iv (a + iv) b = 0" by (simp add: tick_count_def)
        then have n1: "tick_count iv a b = Suc 0" using n by simp
        show ?thesis
          unfolding u less(1)[OF m a'] n1 using False \<open>a \<le> b\<close> inside
          by (simp add: tick_count_def)
      qed
    qed
  qed
qed

lemma month_start_index: "1 \<le> month d \<Longrightarrow> month d \<le> 12 \<Longrightarrow> month_start (month_index d) = Date (year d) (month d) 1"
  by (simp add: month_start_def month_index_def)

lemma upto_1_12: "[1..12::int] = [1, 2, 3, 4, 5, 6, 7, 8, 9, 10, 11, 12]"
  by code_simp

lemma month_cases:
  fixes m :: int
  assumes "1 \<le> m" "m \<le> 12"
  obtains "m = 1" | "m = 2" | "m = 3" | "m = 4" | "m = 5" | "m = 6"
    | "m = 7" | "m = 8" | "m = 9" | "m = 10" | "m = 11" | "m = 12"
proof -
  have "m \<in> set [1..12]" using assms by simp
  then show ?thesis unfolding upto_1_12 using that by auto
qed

lemma next_day_within_month:
  "d + int n \<le> days_in_month y m \<Longrightarrow> (next_day ^^ n) (Date y m d) = Date y m (d + int n)"
proof (induction n)
  case 0
  then show ?case by simp
next
  case (Suc n)
  then have "(next_day ^^ Suc n) (Date y m d) = next_day (Date y m (d + int n))" by simp
  moreover have "d + int n < days_in_month y m" using Suc.prems by simp
  then have "next_day (Date y m (d + int n)) = Date y m (d + int (Suc n))"
    by (simp add: next_day_def add.assoc)
  ultimately show ?case by (simp only:)
qed

lemma next_day_month_end:
  "next_day (Date y m (days_in_month y m)) =
     (if m < 12 then Date y (m + 1) 1 else Date (y + 1) 1 1)"
  by (simp add: next_day_def)

lemma date_add_days_31:
  assumes "1 \<le> m" "m \<le> 12"
  shows "year (date_add_days (Date y m 1) 31) = y + m div 12"
    and "month (date_add_days (Date y m 1) 31) = m mod 12 + 1"
proof -
  define dim where "dim = days_in_month y m"
  define k where "k = nat (dim - 1)"
  define r where "r = nat (31 - dim)"
  have b: "28 \<le> dim" "dim \<le> 31" unfolding dim_def by (rule days_in_month_bounds)+
  have n31: "(31::nat) = r + Suc k" unfolding r_def k_def using b by linarith
  have s1: "(next_day ^^ k) (Date y m 1) = Date y m dim"
    using next_day_within_month[of 1 k y m] b unfolding k_def dim_def by simp
  define y' where "y' = (if m < 12 then y else y + 1)"
  define m' where "m' = (if m < 12 then m + 1 else 1)"
  have s2: "next_day (Date y m dim) = Date y' m' 1"
    unfolding dim_def y'_def m'_def by (simp add: next_day_month_end)
  have "1 + int r \<le> days_in_month y' m'"
    using b days_in_month_bounds(1)[of y' m'] unfolding r_def by linarith
  then have s3: "(next_day ^^ r) (Date y' m' 1) = Date y' m' (1 + int r)"
    by (rule next_day_within_month)
  have e: "date_add_days (Date y m 1) 31 = Date y' m' (1 + int r)"
    unfolding date_add_days_def n31 funpow_add by (simp add: s1 s2 s3)
  have "y' = y + m div 12" "m' = m mod 12 + 1"
    unfolding y'_def m'_def using assms by (cases m rule: month_cases; simp)+
  then show "year (date_add_days (Date y m 1) 31) = y + m div 12"
    and "month (date_add_days (Date y m 1) 31) = m mod 12 + 1"
    unfolding e by simp_all
qed

lemma month_start_succ:
  assumes "1 \<le> month d" "month d \<le> 12"
  shows "month_start (month_index d + 1) = Date (year d + month d div 12) (month d mod 12 + 1) 1"
  using tick_step[of "month_index d" 1] assms by (simp add: month_start_index)

lemma interval_months_spec:
  "(if r \<le> 1 then 1 else if r \<le> 2 then 2 else if r \<le> 3 then 3 else if r \<le> 6 then 6 else 12)
     = spec_interval r"
proof -
  consider "r \<le> 1" | "1 < r" "r \<le> 2" | "2 < r" "r \<le> 3" | "3 < r" "r \<le> 6"
    | "6 < r" "r \<le> 12" | "12 < r" by linarith
  then show ?thesis
  proof cases
    case 1
    then have "{c \<in> {1, 2, 3, 6, 12}. r \<le> real_of_int c} = {1, 2, 3, 6, 12}" by auto
    then show ?thesis using 1 by (simp add: spec_interval_def)
  next
    case 2
    then have "{c \<in> {1, 2, 3, 6, 12}. r \<le> real_of_int c} = {2, 3, 6, 12}" by auto
    then show ?thesis using 2 by (simp add: spec_interval_def)
  next
    case 3
    then have "{c \<in> {1, 2, 3, 6, 12}. r \<le> real_of_int c} = {3, 6, 12}" by auto
    then show ?thesis using 3 by (simp add: spec_interval_def)
  next
    case 4
    then have "{c \<in> {1, 2, 3, 6, 12}. r \<le> real_of_int c} = {6, 12}" by auto
    then show ?thesis using 4 by (simp add: spec_interval_def)
  next
    case 5
    then have "{c \<in> {1, 2, 3, 6, 12}. r \<le> real_of_int c} = {12}" by auto
    then show ?thesis using 5 by (simp add: spec_interval_def)
  next
    case 6
    then have "{c \<in> {1, 2, 3, 6, 12}. r \<le> real_of_int c} = {}" by auto
    then show ?thesis using 6 by (simp add: spec_interval_def)
  qed
qed

lemma spec_interval_pos: "0 < spec_interval r"
  unfolding interval_months_spec[symmetric] by simp

lemma date_lt_irrefl: "\<not> date_lt a a"
  by (simp add: date_lt_def)

lemma date_lt_trans: "date_lt a b \<Longrightarrow> date_lt b c \<Longrightarrow> date_lt a c"
  unfolding date_lt_def by linarith

lemma date_lt_total: "date_lt a b \<or> a = b \<or> date_lt b a"
  unfolding date_lt_def by (cases a; cases b; simp; linarith)

lemma date_lt_le_trans: "date_lt a b \<Longrightarrow> \<not> date_lt c b \<Longrightarrow> date_lt a c"
  using date_lt_total[of b c] date_lt_trans[of a b c] by blast

lemma date_le_lt_trans: "\<not> date_lt b a \<Longrightarrow> date_lt b c \<Longrightarrow> date_lt a c"
  using date_lt_total[of a b] date_lt_trans[of a b c] by blast

lemma min_loop_PDate:
  "\<exists>lo \<in> set (m # ds). min_loop (map PDate ds) (PDate m) = Inr (PDate lo)
     \<and> (\<forall>d \<in> set (m # ds). \<not> date_lt d lo)"
proof (induction ds arbitrary: m)
  case Nil
  show ?case by (simp add: date_lt_irrefl)
next
  case (Cons x ds)
  define m' where "m' = (if date_lt x m then x else m)"
  obtain lo where lo: "lo \<in> set (m' # ds)" "min_loop (map PDate ds) (PDate m') = Inr (PDate lo)"
    "\<forall>d \<in> set (m' # ds). \<not> date_lt d lo"
    using Cons.IH[of m'] by blast
  have e: "min_loop (map PDate (x # ds)) (PDate m) = Inr (PDate lo)"
    using lo(2) unfolding m'_def by (cases "date_lt x m"; simp)
  have "\<not> date_lt m' lo" using lo(3) by simp
  then have "\<not> date_lt x lo" "\<not> date_lt m lo"
    unfolding m'_def using date_lt_trans date_lt_le_trans by (metis (full_types))+
  then have "\<forall>d \<in> set (m # x # ds). \<not> date_lt d lo" using lo(3) by simp
  moreover have "lo \<in> set (m # x # ds)" using lo(1) by (auto simp: m'_def split: if_splits)
  ultimately show ?case using e by blast
qed

lemma max_loop_PDate:
  "\<exists>hi \<in> set (m # ds). max_loop (map PDate ds) (PDate m) = Inr (PDate hi)
     \<and> (\<forall>d \<in> set (m # ds). \<not> date_lt hi d)"
proof (induction ds arbitrary: m)
  case Nil
  show ?case by (simp add: date_lt_irrefl)
next
  case (Cons x ds)
  define m' where "m' = (if date_lt m x then x else m)"
  obtain hi where hi: "hi \<in> set (m' # ds)" "max_loop (map PDate ds) (PDate m') = Inr (PDate hi)"
    "\<forall>d \<in> set (m' # ds). \<not> date_lt hi d"
    using Cons.IH[of m'] by blast
  have e: "max_loop (map PDate (x # ds)) (PDate m) = Inr (PDate hi)"
    using hi(2) unfolding m'_def by (cases "date_lt m x"; simp)
  have "\<not> date_lt hi m'" using hi(3) by simp
  then have "\<not> date_lt hi x" "\<not> date_lt hi m"
    unfolding m'_def using date_lt_trans date_le_lt_trans by (metis (full_types))+
  then have "\<forall>d \<in> set (m # x # ds). \<not> date_lt hi d" using hi(3) by simp
  moreover have "hi \<in> set (m # x # ds)" using hi(1) by (auto simp: m'_def split: if_splits)
  ultimately show ?case using e by blast
qed

lemma py_min_PDate:
  assumes "ds \<noteq> []"
  obtains lo where "lo \<in> set ds" "py_min (map PDate ds) = Inr (PDate lo)"
    "\<forall>d \<in> set ds. \<not> date_lt d lo"
proof -
  obtain m rest where "ds = m # rest" using assms by (cases ds) auto
  then show ?thesis using min_loop_PDate[of m rest] that by auto
qed

lemma py_max_PDate:
  assumes "ds \<noteq> []"
  obtains hi where "hi \<in> set ds" "py_max (map PDate ds) = Inr (PDate hi)"
    "\<forall>d \<in> set ds. \<not> date_lt hi d"
proof -
  obtain m rest where "ds = m # rest" using assms by (cases ds) auto
  then show ?thesis using max_loop_PDate[of m rest] that by auto
qed

lemma div_pred:
  fixes y k :: int
  assumes "0 < k"
  shows "(y - 1) div k = (if y mod k = 0 then y div k - 1 else y div k)"
proof (cases "y mod k = 0")
  case True
  have "y - 1 = (k - 1) + (y div k - 1) * k"
    using True by (simp add: algebra_simps) (metis mult.commute mult_div_mod_eq add.right_neutral)
  then have "(y - 1) div k = ((k - 1) + (y div k - 1) * k) div k"
    by (rule arg_cong[where f = "\<lambda>x. x div k"])
  also have "\<dots> = (y div k - 1) + (k - 1) div k" using assms by (subst div_mult_self1) simp_all
  also have "(k - 1) div k = 0" using assms by (simp add: div_pos_pos_trivial)
  finally show ?thesis using True by simp
next
  case False
  have r: "0 < y mod k" "y mod k < k" using False assms pos_mod_sign[of k y] pos_mod_bound[of k y] by linarith+
  have "y - 1 = (y mod k - 1) + (y div k) * k"
    by (simp add: algebra_simps)
  then have "(y - 1) div k = ((y mod k - 1) + (y div k) * k) div k"
    by (rule arg_cong[where f = "\<lambda>x. x div k"])
  also have "\<dots> = y div k + (y mod k - 1) div k" using assms by (subst div_mult_self1) simp_all
  also have "(y mod k - 1) div k = 0" using r by (simp add: div_pos_pos_trivial)
  finally show ?thesis using False by simp
qed

lemma mod_100_4: "(y::int) mod 100 = 0 \<Longrightarrow> y mod 4 = 0"
  using mod_mod_cancel[of 4 100 y] by simp

lemma mod_400_100: "(y::int) mod 400 = 0 \<Longrightarrow> y mod 100 = 0"
  using mod_mod_cancel[of 100 400 y] by simp

lemma days_before_year_succ: "days_before_year (y + 1) = days_before_year y + days_in_year y"
  using mod_100_4[of y] mod_400_100[of y]
  by (simp add: days_before_year_def days_in_year_def is_leap_def Let_def
      div_pred[of 4 y] div_pred[of 100 y] div_pred[of 400 y])

lemma days_in_year_pos: "0 < days_in_year y"
  by (simp add: days_in_year_def)

lemma days_before_year_mono: "y \<le> y' \<Longrightarrow> days_before_year y \<le> days_before_year y'"
proof (induction y' rule: int_ge_induct)
  case base
  show ?case by simp
next
  case (step i)
  then show ?case using days_before_year_succ[of i] days_in_year_pos[of i] by linarith
qed

lemma days_before_month_succ:
  "1 \<le> m \<Longrightarrow> days_before_month y (m + 1) = days_before_month y m + days_in_month y m"
  by (simp add: days_before_month_def upto_rec2[of 1 m])

lemma days_before_month_mono:
  assumes "1 \<le> m" "m < m'"
  shows "days_before_month y m + days_in_month y m \<le> days_before_month y m'"
proof -
  have "m + 1 \<le> m'" using assms by simp
  then show ?thesis
  proof (induction m' rule: int_ge_induct)
    case base
    show ?case using assms(1) by (simp add: days_before_month_succ)
  next
    case (step i)
    have "1 \<le> i" using step.hyps assms(1) by linarith
    then show ?case
      using step.IH days_before_month_succ[of i y] days_in_month_bounds(1)[of y i] by linarith
  qed
qed

lemma days_before_month_1: "days_before_month y 1 = 0"
  by (simp add: days_before_month_def)

lemma days_before_month_13: "days_before_month y 13 = days_in_year y"
  by (simp add: days_before_month_def upto_1_12 days_in_month_def days_in_year_def)

lemma days_before_month_nonneg: "1 \<le> m \<Longrightarrow> 0 \<le> days_before_month y m"
  using days_before_month_mono[of 1 m y] days_in_month_bounds(1)[of y 1]
  by (cases "m = 1") (simp_all add: days_before_month_1)

lemma toordinal_bounds:
  assumes "valid_date d"
  shows "days_before_year (year d) < toordinal d" "toordinal d \<le> days_before_year (year d + 1)"
proof -
  have v: "1 \<le> month d" "month d \<le> 12" "1 \<le> day d" "day d \<le> days_in_month (year d) (month d)"
    using assms by (simp_all add: valid_date_def)
  show "days_before_year (year d) < toordinal d"
    using v(3) days_before_month_nonneg[OF v(1), of "year d"] by (simp add: toordinal_def)
  have "days_before_month (year d) (month d) + days_in_month (year d) (month d)
      \<le> days_before_month (year d) 13"
    using days_before_month_mono[of "month d" 13 "year d"] v by simp
  then show "toordinal d \<le> days_before_year (year d + 1)"
    using v(4) by (simp add: toordinal_def days_before_year_succ days_before_month_13)
qed

lemma toordinal_mono:
  assumes "valid_date a" "valid_date b" "date_lt a b"
  shows "toordinal a < toordinal b"
proof -
  have va: "1 \<le> month a" "month a \<le> 12" "1 \<le> day a" "day a \<le> days_in_month (year a) (month a)"
    using assms(1) by (simp_all add: valid_date_def)
  have vb: "1 \<le> month b" "month b \<le> 12" "1 \<le> day b" "day b \<le> days_in_month (year b) (month b)"
    using assms(2) by (simp_all add: valid_date_def)
  consider "year a < year b" | "year a = year b" "month a < month b"
    | "year a = year b" "month a = month b" "day a < day b"
    using assms(3) unfolding date_lt_def by blast
  then show ?thesis
  proof cases
    case 1
    then have "days_before_year (year a + 1) \<le> days_before_year (year b)"
      by (intro days_before_year_mono) simp
    then show ?thesis using toordinal_bounds(2)[OF assms(1)] toordinal_bounds(1)[OF assms(2)]
      by linarith
  next
    case 2
    have "days_before_month (year a) (month a) + days_in_month (year a) (month a)
      \<le> days_before_month (year a) (month b)"
      using days_before_month_mono[OF va(1) 2(2)] .
    then show ?thesis using 2(1) va(4) vb(3) by (simp add: toordinal_def)
  next
    case 3
    then show ?thesis by (simp add: toordinal_def)
  qed
qed

lemma tick_count_bounds:
  assumes "0 < iv" "a \<le> b"
  shows "0 < tick_count iv a b"
    and "a + int (tick_count iv a b - 1) * iv \<le> b"
    and "b < a + int (tick_count iv a b) * iv"
proof -
  define q where "q = (b - a) div iv"
  define r where "r = (b - a) mod iv"
  have q: "0 \<le> q" unfolding q_def using assms by (simp add: pos_imp_zdiv_nonneg_iff)
  have r: "0 \<le> r" "r < iv" unfolding r_def using assms(1) by simp_all
  have e: "b - a = q * iv + r" unfolding q_def r_def by simp
  have n: "int (tick_count iv a b) = q + 1" "int (tick_count iv a b - 1) = q"
    unfolding tick_count_def q_def[symmetric] using assms(2) q by simp_all
  show "0 < tick_count iv a b" unfolding tick_count_def using assms(2) by simp
  show "a + int (tick_count iv a b - 1) * iv \<le> b" unfolding n using e r by linarith
  show "b < a + int (tick_count iv a b) * iv" unfolding n using e r by (simp add: algebra_simps)
qed

lemma month_index_mono:
  assumes "date_lt a b" "1 \<le> month a" "month a \<le> 12" "1 \<le> month b" "month b \<le> 12"
  shows "month_index a \<le> month_index b"
  using assms unfolding date_lt_def month_index_def by linarith

subsection \<open>Date inputs: the smallest and the largest value\<close>

text \<open>
  On valid dates the order of the calendar is the order of the day ordinals, so that
  on a list of dates, and on a list of datetimes, \<^verbatim>\<open>min\<close> and \<^verbatim>\<open>max\<close> compare the places on
  the time line and never raise.
\<close>

lemma date_lt_toordinal:
  assumes "valid_date a" "valid_date b"
  shows "date_lt a b \<longleftrightarrow> toordinal a < toordinal b"
proof
  assume "date_lt a b"
  then show "toordinal a < toordinal b" by (rule toordinal_mono[OF assms])
next
  assume l: "toordinal a < toordinal b"
  show "date_lt a b"
  proof (rule ccontr)
    assume "\<not> date_lt a b"
    then consider "a = b" | "date_lt b a" using date_lt_total[of a b] by blast
    then show False
    proof cases
      case 1
      then show False using l by simp
    next
      case 2
      then show False using toordinal_mono[OF assms(2,1)] l by simp
    qed
  qed
qed

lemma toordinal_inj:
  assumes "valid_date a" "valid_date b" "toordinal a = toordinal b"
  shows "a = b"
  using date_lt_total[of a b] toordinal_mono[OF assms(1,2)] toordinal_mono[OF assms(2,1)] assms(3)
  by auto

lemma py_lt_dates:
  assumes "is_py_date x" "is_py_date y"
  shows "py_lt x y = Inr (timestamp x < timestamp y)"
proof -
  obtain a where x: "x = PDate a" "valid_date a"
    using assms(1) by (cases x) (simp_all add: py_date_def)
  obtain b where y: "y = PDate b" "valid_date b"
    using assms(2) by (cases y) (simp_all add: py_date_def)
  show ?thesis
    unfolding x(1) y(1) using date_lt_toordinal[OF x(2) y(2)] by (simp add: us_per_day_def)
qed

lemma py_lt_datetimes:
  assumes "is_py_datetime x" "is_py_datetime y"
  shows "py_lt x y = Inr (timestamp x < timestamp y)"
proof -
  obtain a s where x: "x = PDatetime a s" "valid_date a" "int s < us_per_day"
    using assms(1) by (cases x) (simp_all add: py_date_def)
  obtain b t where y: "y = PDatetime b t" "valid_date b" "int t < us_per_day"
    using assms(2) by (cases y) (simp_all add: py_date_def)
  have "(date_lt a b \<or> (a = b \<and> s < t))
      \<longleftrightarrow> toordinal a * us_per_day + int s < toordinal b * us_per_day + int t"
  proof (cases "toordinal a < toordinal b")
    case True
    then have "(toordinal a + 1) * us_per_day \<le> toordinal b * us_per_day"
      by (intro mult_right_mono) (simp_all add: us_per_day_def)
    then have "toordinal a * us_per_day + int s < toordinal b * us_per_day + int t"
      using x(3) by (simp add: algebra_simps)
    then show ?thesis using True date_lt_toordinal[OF x(2) y(2)] by simp
  next
    case False
    show ?thesis
    proof (cases "toordinal a = toordinal b")
      case True
      then have "a = b" using toordinal_inj[OF x(2) y(2)] by simp
      then show ?thesis by (simp add: date_lt_irrefl)
    next
      case ne: False
      then have "toordinal b < toordinal a" using False by linarith
      then have "(toordinal b + 1) * us_per_day \<le> toordinal a * us_per_day"
        by (intro mult_right_mono) (simp_all add: us_per_day_def)
      then have "\<not> toordinal a * us_per_day + int s < toordinal b * us_per_day + int t"
        using y(3) by (simp add: algebra_simps)
      moreover have "\<not> date_lt a b" "a \<noteq> b"
        using False ne date_lt_toordinal[OF x(2) y(2)] by auto
      ultimately show ?thesis by simp
    qed
  qed
  then show ?thesis unfolding x(1) y(1) by simp
qed

lemma min_loop_timestamp:
  assumes "\<And>x y. x \<in> set (m # xs) \<Longrightarrow> y \<in> set (m # xs)
      \<Longrightarrow> py_lt x y = Inr (timestamp x < timestamp y)"
  shows "\<exists>lo \<in> set (m # xs). min_loop xs m = Inr lo
      \<and> (\<forall>x \<in> set (m # xs). timestamp lo \<le> timestamp x)"
  using assms
proof (induction xs arbitrary: m)
  case Nil
  show ?case by simp
next
  case (Cons x xs)
  define m' where "m' = (if timestamp x < timestamp m then x else m)"
  have s: "set (m' # xs) \<subseteq> set (m # x # xs)" by (auto simp: m'_def)
  have "\<exists>lo \<in> set (m' # xs). min_loop xs m' = Inr lo
      \<and> (\<forall>x \<in> set (m' # xs). timestamp lo \<le> timestamp x)"
    using s by (intro Cons.IH Cons.prems) auto
  then obtain lo where lo: "lo \<in> set (m' # xs)" "min_loop xs m' = Inr lo"
    "\<forall>x \<in> set (m' # xs). timestamp lo \<le> timestamp x" by blast
  have "py_lt x m = Inr (timestamp x < timestamp m)" by (intro Cons.prems) simp_all
  then have e: "min_loop (x # xs) m = Inr lo" using lo(2) by (simp add: m'_def)
  have "timestamp lo \<le> timestamp m'" using lo(3) by simp
  then have "timestamp lo \<le> timestamp x" "timestamp lo \<le> timestamp m"
    by (simp_all add: m'_def split: if_splits)
  then have "\<forall>y \<in> set (m # x # xs). timestamp lo \<le> timestamp y" using lo(3) by simp
  moreover have "lo \<in> set (m # x # xs)" using lo(1) s by blast
  ultimately show ?case using e by blast
qed

lemma max_loop_timestamp:
  assumes "\<And>x y. x \<in> set (m # xs) \<Longrightarrow> y \<in> set (m # xs)
      \<Longrightarrow> py_lt x y = Inr (timestamp x < timestamp y)"
  shows "\<exists>hi \<in> set (m # xs). max_loop xs m = Inr hi
      \<and> (\<forall>x \<in> set (m # xs). timestamp x \<le> timestamp hi)"
  using assms
proof (induction xs arbitrary: m)
  case Nil
  show ?case by simp
next
  case (Cons x xs)
  define m' where "m' = (if timestamp m < timestamp x then x else m)"
  have s: "set (m' # xs) \<subseteq> set (m # x # xs)" by (auto simp: m'_def)
  have "\<exists>hi \<in> set (m' # xs). max_loop xs m' = Inr hi
      \<and> (\<forall>x \<in> set (m' # xs). timestamp x \<le> timestamp hi)"
    using s by (intro Cons.IH Cons.prems) auto
  then obtain hi where hi: "hi \<in> set (m' # xs)" "max_loop xs m' = Inr hi"
    "\<forall>x \<in> set (m' # xs). timestamp x \<le> timestamp hi" by blast
  have "py_lt m x = Inr (timestamp m < timestamp x)" by (intro Cons.prems) simp_all
  then have e: "max_loop (x # xs) m = Inr hi" using hi(2) by (simp add: m'_def)
  have "timestamp m' \<le> timestamp hi" using hi(3) by simp
  then have "timestamp x \<le> timestamp hi" "timestamp m \<le> timestamp hi"
    by (simp_all add: m'_def split: if_splits)
  then have "\<forall>y \<in> set (m # x # xs). timestamp y \<le> timestamp hi" using hi(3) by simp
  moreover have "hi \<in> set (m # x # xs)" using hi(1) s by blast
  ultimately show ?case using e by blast
qed

lemma date_values_py_lt:
  assumes "date_values vs" "x \<in> set vs" "y \<in> set vs"
  shows "py_lt x y = Inr (timestamp x < timestamp y)"
  using assms py_lt_dates[of x y] py_lt_datetimes[of x y]
  by (auto simp: date_values_def list_all_iff)

lemma date_values_min_max:
  assumes "date_values vs"
  obtains lo hi where "lo \<in> set vs" "hi \<in> set vs" "py_min vs = Inr lo" "py_max vs = Inr hi"
    "\<forall>x \<in> set vs. timestamp lo \<le> timestamp x" "\<forall>x \<in> set vs. timestamp x \<le> timestamp hi"
proof -
  obtain m rest where vs: "vs = m # rest" using assms by (cases vs) (auto simp: date_values_def)
  have c: "py_lt x y = Inr (timestamp x < timestamp y)"
    if "x \<in> set (m # rest)" "y \<in> set (m # rest)" for x y
    using date_values_py_lt[OF assms] that unfolding vs by blast
  obtain lo where "lo \<in> set (m # rest)" "min_loop rest m = Inr lo"
    "\<forall>x \<in> set (m # rest). timestamp lo \<le> timestamp x"
    using min_loop_timestamp[of m rest] c by blast
  moreover obtain hi where "hi \<in> set (m # rest)" "max_loop rest m = Inr hi"
    "\<forall>x \<in> set (m # rest). timestamp x \<le> timestamp hi"
    using max_loop_timestamp[of m rest] c by blast
  ultimately show ?thesis using that unfolding vs by simp
qed

text \<open>The difference of two values of a date input, and the date of such a value.\<close>

lemma date_values_py_sub:
  assumes "date_values vs" "x \<in> set vs" "y \<in> set vs"
  shows "py_sub y x = Inr (DTimedelta (timestamp y - timestamp x))"
proof -
  consider "is_py_date x" "is_py_date y" | "is_py_datetime x" "is_py_datetime y"
    using assms by (auto simp: date_values_def list_all_iff)
  then show ?thesis
  proof cases
    case 1
    then show ?thesis by (cases x; cases y) (simp_all add: algebra_simps)
  next
    case 2
    then show ?thesis by (cases x; cases y) (simp_all add: algebra_simps)
  qed
qed

lemma date_values_date_of:
  assumes "date_values vs" "x \<in> set vs"
  obtains d where "date_of x = Some d" "py_date d"
    "toordinal d * us_per_day \<le> timestamp x" "timestamp x < (toordinal d + 1) * us_per_day"
proof -
  consider "is_py_date x" | "is_py_datetime x"
    using assms by (auto simp: date_values_def list_all_iff)
  then show ?thesis
  proof cases
    case 1
    then show ?thesis using that by (cases x) (simp_all add: algebra_simps us_per_day_def)
  next
    case 2
    then show ?thesis using that by (cases x) (simp_all add: algebra_simps)
  qed
qed

lemma timestamp_month_index:
  assumes "py_date a" "py_date b"
    and "toordinal a * us_per_day \<le> ta" "tb < (toordinal b + 1) * us_per_day" "ta \<le> tb"
  shows "month_index a \<le> month_index b"
proof -
  have v: "valid_date a" "valid_date b" using assms(1,2) by (simp_all add: py_date_def)
  have "toordinal a * us_per_day < (toordinal b + 1) * us_per_day" using assms(3-5) by linarith
  then have "toordinal a < toordinal b + 1" by (simp add: us_per_day_def)
  then have "\<not> date_lt b a" using toordinal_mono[OF v(2,1)] by linarith
  then consider "a = b" | "date_lt a b" using date_lt_total[of a b] by blast
  then show ?thesis
  proof cases
    case 1
    then show ?thesis by simp
  next
    case 2
    then show ?thesis using v by (intro month_index_mono) (simp_all add: valid_date_def)
  qed
qed

subsection \<open>The closed form of \<^verbatim>\<open>get_big_date_limits\<close>\<close>

lemma datetime_first:
  assumes "py_date d"
  shows "datetime (year d) (month d) 1 = Inr (month_start (month_index d))"
proof -
  have m: "1 \<le> month d" "month d \<le> 12" "1 \<le> year d" "year d \<le> MAXYEAR"
    using assms by (simp_all add: py_date_def valid_date_def MINYEAR_def)
  have k: "12 \<le> month_index d" "month_index d div 12 = year d"
    "month_index d mod 12 + 1 = month d"
    using m by (simp_all add: month_index_def)
  show ?thesis using datetime_month_start[OF k(1)] m(4) unfolding k(2,3) by simp
qed

lemma month_index_month_start: "month_index (month_start k) = k"
  by (simp add: month_index_def month_start_def)

lemma date_add_days_31_month_start:
  "year (date_add_days (month_start k) 31) = (k + 1) div 12"
  "month (date_add_days (month_start k) 31) = (k + 1) mod 12 + 1"
proof -
  have m: "1 \<le> k mod 12 + 1" "k mod 12 + 1 \<le> 12" by simp_all
  have s: "month_start (k + 1) = Date (k div 12 + (k mod 12 + 1) div 12) ((k mod 12 + 1) mod 12 + 1) 1"
    using month_start_succ[of "month_start k"] m
    by (simp add: month_index_month_start) (simp add: month_start_def)
  have y: "(k + 1) div 12 = k div 12 + (k mod 12 + 1) div 12"
    and mo: "(k + 1) mod 12 + 1 = (k mod 12 + 1) mod 12 + 1"
    using s by (simp_all add: month_start_def)
  show "year (date_add_days (month_start k) 31) = (k + 1) div 12"
    and "month (date_add_days (month_start k) 31) = (k + 1) mod 12 + 1"
    unfolding y mo using date_add_days_31[OF m, of "k div 12"] by (simp_all add: month_start_def)
qed

lemma get_big_date_limits_closed:
  assumes lo: "py_min vs = Inr lo" and hi: "py_max vs = Inr hi"
    and sub: "py_sub hi lo = Inr (DTimedelta (timestamp hi - timestamp lo))"
    and dl: "date_of lo = Some dlo" and dh: "date_of hi = Some dhi"
    and pl: "py_date dlo" and ph: "py_date dhi"
    and le: "month_index dlo \<le> month_index dhi"
    and mt: "max_ticks \<noteq> 0"
    and iv: "iv = spec_interval (spec_raw_interval lo hi max_ticks)"
    and n: "n = tick_count iv (month_index dlo) (month_index dhi + 1)"
  shows "get_big_date_limits vs max_ticks =
     (if span_days lo hi \<le> 0 then Some (Inl (ValueError ''Dates must have a positive range.''))
      else if MAXYEAR < (month_index dhi + 1) div 12 then Some (Inl OverflowError)
      else if MAXYEAR < (month_index dlo + int n * iv) div 12 then
        Some (Inl (ValueError (''year '' @ str_of_int ((month_index dlo + int n * iv) div 12)
           @ '' is out of range'')))
      else Some (Inr (map (\<lambda>j. PDate (month_start (month_index dlo + int j * iv))) [0..<n])))"
proof (cases "span_days lo hi \<le> 0")
  case True
  then show ?thesis
    unfolding get_big_date_limits_def by (simp add: lo hi sub span_days_def)
next
  case pos: False
  define a where "a = month_index dlo"
  define b where "b = month_index dhi + 1"
  have ivp: "0 < iv" unfolding iv by (rule spec_interval_pos)
  have a12: "12 \<le> a"
    using pl unfolding a_def by (simp add: py_date_def valid_date_def MINYEAR_def month_index_def)
  have b12: "12 \<le> b" using a12 le unfolding a_def b_def by linarith
  have ab: "a \<le> b" using le unfolding a_def b_def by linarith
  have g: "get_big_date_limits vs max_ticks =
      (case datetime_add_days (month_start (month_index dhi)) 31 of
         Inl e \<Rightarrow> Some (Inl e)
       | Inr end2 \<Rightarrow>
          (case datetime (year end2) (month end2) 1 of
             Inl e \<Rightarrow> Some (Inl e)
           | Inr end' \<Rightarrow> tick_loop iv end' (month_start a) []))"
    unfolding get_big_date_limits_def iv a_def spec_raw_interval_def span_days_def
    using pos mt
    by (simp add: lo hi sub span_days_def Let_def interval_months_spec
        dl dh datetime_first[OF pl] datetime_first[OF ph])
  show ?thesis
  proof (cases "MAXYEAR < b div 12")
    case True
    then have "datetime_add_days (month_start (month_index dhi)) 31 = Inl OverflowError"
      by (simp add: datetime_add_days_def date_add_days_31_month_start b_def)
    then show ?thesis using pos True unfolding g b_def by simp
  next
    case False
    have e2: "datetime_add_days (month_start (month_index dhi)) 31
        = Inr (date_add_days (month_start (month_index dhi)) 31)"
      using False by (simp add: datetime_add_days_def date_add_days_31_month_start b_def)
    have e3: "datetime (year (date_add_days (month_start (month_index dhi)) 31))
        (month (date_add_days (month_start (month_index dhi)) 31)) 1 = Inr (month_start b)"
      unfolding date_add_days_31_month_start b_def[symmetric]
      using datetime_month_start[OF b12] False by simp
    have bm: "b div 12 \<le> MAXYEAR" using False by simp
    have "get_big_date_limits vs max_ticks = tick_loop iv (month_start b) (month_start a) []"
      unfolding g e2 by (simp add: e3)
    also have "\<dots> =
       (if a \<le> b \<and> MAXYEAR < (a + int (tick_count iv a b) * iv) div 12 then
          Some (Inl (ValueError (''year '' @ str_of_int ((a + int (tick_count iv a b) * iv) div 12)
             @ '' is out of range'')))
        else Some (Inr ([] @ map (\<lambda>j. PDate (month_start (a + int j * iv))) [0..<tick_count iv a b])))"
      by (rule tick_loop_closed[OF ivp bm a12])
    finally show ?thesis
      using pos False ab unfolding n a_def[symmetric] b_def[symmetric] by simp
  qed
qed

subsection \<open>The ticks of a date axis\<close>

lemma add_months_first_of_month:
  "add_months (first_of_month d) k = month_start (month_index d + k)"
  by (simp add: add_months_def first_of_month_def month_index_def)

lemma add_months_day: "day (add_months d k) = 1"
  by (simp add: add_months_def month_start_def)

text \<open>With a positive interval the ticks are strictly increasing.\<close>

lemma add_months_increasing:
  assumes "0 < iv" "i < j"
  shows "date_lt (add_months d (int i * iv)) (add_months d (int j * iv))"
proof -
  have "int i * iv < int j * iv" using assms by simp
  then show ?thesis by (simp add: add_months_def date_lt_month_start)
qed

lemma spec_tick_month_start: "spec_tick d iv j = month_start (month_index d + int j * iv)"
  by (simp add: spec_tick_def add_months_first_of_month)

lemma spec_boundary_month_start: "spec_boundary d = month_start (month_index d + 1)"
  by (simp add: spec_boundary_def add_months_first_of_month)

lemma year_month_start: "year (month_start k) = k div 12"
  by (simp add: month_start_def)

text \<open>
  Claim C5 (the date ticks), as amended. A date input is a non-empty list of dates or
  of datetimes, \<open>lo\<close> and \<open>hi\<close> are its smallest and its largest value, and the tick
  budget is positive. The interval is the smallest candidate among 1, 2, 3, 6 and 12
  months that is at least the raw interval (12 if there is none), the raw interval being
  the whole days of the span over 30 over the tick budget. Tick \<open>j\<close> is the first day of
  the month \<open>j\<close> intervals after the month of \<open>lo\<close>; there are \<open>n\<close> ticks up to the boundary,
  the first day of the month after the month of \<open>hi\<close>, and tick \<open>n\<close> is the first one
  past it. The computation always ends. It raises \<^verbatim>\<open>ValueError\<close> when the span has no
  whole day, \<^verbatim>\<open>OverflowError\<close> when the boundary is after the year \<^verbatim>\<open>MAXYEAR\<close>, and
  \<^verbatim>\<open>ValueError\<close> when tick \<open>n\<close>, which the loop constructs before it stops, is after the
  year \<^verbatim>\<open>MAXYEAR\<close>. In every other case it returns the ticks \<open>0\<close> to \<open>n - 1\<close>: they are
  first days of months, start at the first day of the month of \<open>lo\<close>, are spaced by
  the interval, and run up to the boundary, the boundary included when it is reached.
\<close>

theorem get_big_date_limits_ticks:
  assumes "date_values vs" and "0 < max_ticks"
  shows "\<exists>lo hi dlo dhi iv n.
      py_min vs = Inr lo \<and> py_max vs = Inr hi
    \<and> date_of lo = Some dlo \<and> date_of hi = Some dhi
    \<and> iv = spec_interval (spec_raw_interval lo hi max_ticks)
    \<and> 0 < n
    \<and> spec_tick dlo iv 0 = first_of_month dlo
    \<and> (\<forall>j. day (spec_tick dlo iv j) = 1)
    \<and> (\<forall>j < n. date_le (spec_tick dlo iv j) (spec_boundary dhi))
    \<and> date_lt (spec_boundary dhi) (spec_tick dlo iv n)
    \<and> get_big_date_limits vs max_ticks =
        (if span_days lo hi \<le> 0 then
           Some (Inl (ValueError ''Dates must have a positive range.''))
         else if MAXYEAR < year (spec_boundary dhi) then Some (Inl OverflowError)
         else if MAXYEAR < year (spec_tick dlo iv n) then
           Some (Inl (ValueError (''year '' @ str_of_int (year (spec_tick dlo iv n))
              @ '' is out of range'')))
         else Some (Inr (map (\<lambda>j. PDate (spec_tick dlo iv j)) [0..<n])))"
proof -
  obtain lo hi where m: "lo \<in> set vs" "hi \<in> set vs" "py_min vs = Inr lo" "py_max vs = Inr hi"
    "\<forall>x \<in> set vs. timestamp lo \<le> timestamp x" "\<forall>x \<in> set vs. timestamp x \<le> timestamp hi"
    using date_values_min_max[OF assms(1)] by blast
  obtain dlo where dlo: "date_of lo = Some dlo" "py_date dlo"
    "toordinal dlo * us_per_day \<le> timestamp lo"
    using date_values_date_of[OF assms(1) m(1)] by blast
  obtain dhi where dhi: "date_of hi = Some dhi" "py_date dhi"
    "timestamp hi < (toordinal dhi + 1) * us_per_day"
    using date_values_date_of[OF assms(1) m(2)] by blast
  have lh: "timestamp lo \<le> timestamp hi" using m(2,5) by blast
  have le: "month_index dlo \<le> month_index dhi"
    by (rule timestamp_month_index[OF dlo(2) dhi(2) dlo(3) dhi(3) lh])
  have sub: "py_sub hi lo = Inr (DTimedelta (timestamp hi - timestamp lo))"
    by (rule date_values_py_sub[OF assms(1) m(1,2)])
  define iv where "iv = spec_interval (spec_raw_interval lo hi max_ticks)"
  define a where "a = month_index dlo"
  define b where "b = month_index dhi + 1"
  define n where "n = tick_count iv a b"
  have ivp: "0 < iv" unfolding iv_def by (rule spec_interval_pos)
  have ab: "a \<le> b" using le unfolding a_def b_def by linarith
  have mt: "max_ticks \<noteq> 0" using assms(2) by simp
  have np: "0 < n" unfolding n_def by (rule tick_count_bounds(1)[OF ivp ab])
  have vm: "1 \<le> month dlo" "month dlo \<le> 12"
    using dlo(2) by (simp_all add: py_date_def valid_date_def)
  have first: "spec_tick dlo iv 0 = first_of_month dlo"
    using vm by (simp add: spec_tick_month_start month_start_index first_of_month_def)
  have days: "\<forall>j. day (spec_tick dlo iv j) = 1"
    by (simp add: spec_tick_def add_months_day)
  have upper: "\<forall>j < n. date_le (spec_tick dlo iv j) (spec_boundary dhi)"
  proof (intro allI impI)
    fix j assume "j < n"
    then have "int j \<le> int (n - 1)" by simp
    then have "int j * iv \<le> int (n - 1) * iv" using ivp by (simp add: mult_right_mono)
    then have "a + int j * iv \<le> b"
      using tick_count_bounds(2)[OF ivp ab] unfolding n_def[symmetric] by linarith
    then show "date_le (spec_tick dlo iv j) (spec_boundary dhi)"
      by (simp add: spec_tick_month_start spec_boundary_month_start date_le_month_start
          a_def b_def)
  qed
  have past: "date_lt (spec_boundary dhi) (spec_tick dlo iv n)"
    using tick_count_bounds(3)[OF ivp ab] unfolding n_def[symmetric]
    by (simp add: spec_tick_month_start spec_boundary_month_start date_lt_month_start
        a_def b_def)
  have g: "get_big_date_limits vs max_ticks =
        (if span_days lo hi \<le> 0 then
           Some (Inl (ValueError ''Dates must have a positive range.''))
         else if MAXYEAR < year (spec_boundary dhi) then Some (Inl OverflowError)
         else if MAXYEAR < year (spec_tick dlo iv n) then
           Some (Inl (ValueError (''year '' @ str_of_int (year (spec_tick dlo iv n))
              @ '' is out of range'')))
         else Some (Inr (map (\<lambda>j. PDate (spec_tick dlo iv j)) [0..<n])))"
    unfolding spec_tick_month_start spec_boundary_month_start year_month_start
    by (rule get_big_date_limits_closed[OF m(3,4) sub dlo(1) dhi(1) dlo(2) dhi(2) le mt iv_def])
       (simp add: n_def a_def b_def)
  show ?thesis
    using m(3,4) dlo(1) dhi(1) iv_def np first days upper past g by blast
qed

text \<open>
  Two date inputs: the dates 2024-01-15 and 2024-06-20, and the datetimes 2024-01-15 at
  midnight and 2024-06-20 at noon, each with six ticks.
\<close>

theorem get_big_date_limits_ticks_witness:
  "date_values [PDate (Date 2024 1 15), PDate (Date 2024 6 20)]
   \<and> date_values [PDatetime (Date 2024 1 15) 0, PDatetime (Date 2024 6 20) 43200000000]
   \<and> (\<exists>lo hi dlo dhi iv n.
      py_min [PDate (Date 2024 1 15), PDate (Date 2024 6 20)] = Inr lo
    \<and> py_max [PDate (Date 2024 1 15), PDate (Date 2024 6 20)] = Inr hi
    \<and> date_of lo = Some dlo \<and> date_of hi = Some dhi
    \<and> iv = spec_interval (spec_raw_interval lo hi 6)
    \<and> 0 < n
    \<and> spec_tick dlo iv 0 = first_of_month dlo
    \<and> (\<forall>j. day (spec_tick dlo iv j) = 1)
    \<and> (\<forall>j < n. date_le (spec_tick dlo iv j) (spec_boundary dhi))
    \<and> date_lt (spec_boundary dhi) (spec_tick dlo iv n)
    \<and> get_big_date_limits [PDate (Date 2024 1 15), PDate (Date 2024 6 20)] 6 =
        (if span_days lo hi \<le> 0 then
           Some (Inl (ValueError ''Dates must have a positive range.''))
         else if MAXYEAR < year (spec_boundary dhi) then Some (Inl OverflowError)
         else if MAXYEAR < year (spec_tick dlo iv n) then
           Some (Inl (ValueError (''year '' @ str_of_int (year (spec_tick dlo iv n))
              @ '' is out of range'')))
         else Some (Inr (map (\<lambda>j. PDate (spec_tick dlo iv j)) [0..<n]))))
   \<and> (\<exists>lo hi dlo dhi iv n.
      py_min [PDatetime (Date 2024 1 15) 0, PDatetime (Date 2024 6 20) 43200000000] = Inr lo
    \<and> py_max [PDatetime (Date 2024 1 15) 0, PDatetime (Date 2024 6 20) 43200000000] = Inr hi
    \<and> date_of lo = Some dlo \<and> date_of hi = Some dhi
    \<and> iv = spec_interval (spec_raw_interval lo hi 6)
    \<and> 0 < n
    \<and> spec_tick dlo iv 0 = first_of_month dlo
    \<and> (\<forall>j. day (spec_tick dlo iv j) = 1)
    \<and> (\<forall>j < n. date_le (spec_tick dlo iv j) (spec_boundary dhi))
    \<and> date_lt (spec_boundary dhi) (spec_tick dlo iv n)
    \<and> get_big_date_limits [PDatetime (Date 2024 1 15) 0, PDatetime (Date 2024 6 20) 43200000000] 6 =
        (if span_days lo hi \<le> 0 then
           Some (Inl (ValueError ''Dates must have a positive range.''))
         else if MAXYEAR < year (spec_boundary dhi) then Some (Inl OverflowError)
         else if MAXYEAR < year (spec_tick dlo iv n) then
           Some (Inl (ValueError (''year '' @ str_of_int (year (spec_tick dlo iv n))
              @ '' is out of range'')))
         else Some (Inr (map (\<lambda>j. PDate (spec_tick dlo iv j)) [0..<n]))))"
proof (intro conjI)
  show d1: "date_values [PDate (Date 2024 1 15), PDate (Date 2024 6 20)]"
    by (simp add: date_values_def py_date_def valid_date_def days_in_month_def
        MINYEAR_def MAXYEAR_def)
  show d2: "date_values [PDatetime (Date 2024 1 15) 0, PDatetime (Date 2024 6 20) 43200000000]"
    by (simp add: date_values_def py_date_def valid_date_def days_in_month_def
        MINYEAR_def MAXYEAR_def us_per_day_def)
  show "(\<exists>lo hi dlo dhi iv n.
      py_min [PDate (Date 2024 1 15), PDate (Date 2024 6 20)] = Inr lo
    \<and> py_max [PDate (Date 2024 1 15), PDate (Date 2024 6 20)] = Inr hi
    \<and> date_of lo = Some dlo \<and> date_of hi = Some dhi
    \<and> iv = spec_interval (spec_raw_interval lo hi 6)
    \<and> 0 < n
    \<and> spec_tick dlo iv 0 = first_of_month dlo
    \<and> (\<forall>j. day (spec_tick dlo iv j) = 1)
    \<and> (\<forall>j < n. date_le (spec_tick dlo iv j) (spec_boundary dhi))
    \<and> date_lt (spec_boundary dhi) (spec_tick dlo iv n)
    \<and> get_big_date_limits [PDate (Date 2024 1 15), PDate (Date 2024 6 20)] 6 =
        (if span_days lo hi \<le> 0 then
           Some (Inl (ValueError ''Dates must have a positive range.''))
         else if MAXYEAR < year (spec_boundary dhi) then Some (Inl OverflowError)
         else if MAXYEAR < year (spec_tick dlo iv n) then
           Some (Inl (ValueError (''year '' @ str_of_int (year (spec_tick dlo iv n))
              @ '' is out of range'')))
         else Some (Inr (map (\<lambda>j. PDate (spec_tick dlo iv j)) [0..<n]))))"
    by (rule get_big_date_limits_ticks[OF d1]) simp
  show "(\<exists>lo hi dlo dhi iv n.
      py_min [PDatetime (Date 2024 1 15) 0, PDatetime (Date 2024 6 20) 43200000000] = Inr lo
    \<and> py_max [PDatetime (Date 2024 1 15) 0, PDatetime (Date 2024 6 20) 43200000000] = Inr hi
    \<and> date_of lo = Some dlo \<and> date_of hi = Some dhi
    \<and> iv = spec_interval (spec_raw_interval lo hi 6)
    \<and> 0 < n
    \<and> spec_tick dlo iv 0 = first_of_month dlo
    \<and> (\<forall>j. day (spec_tick dlo iv j) = 1)
    \<and> (\<forall>j < n. date_le (spec_tick dlo iv j) (spec_boundary dhi))
    \<and> date_lt (spec_boundary dhi) (spec_tick dlo iv n)
    \<and> get_big_date_limits [PDatetime (Date 2024 1 15) 0, PDatetime (Date 2024 6 20) 43200000000] 6 =
        (if span_days lo hi \<le> 0 then
           Some (Inl (ValueError ''Dates must have a positive range.''))
         else if MAXYEAR < year (spec_boundary dhi) then Some (Inl OverflowError)
         else if MAXYEAR < year (spec_tick dlo iv n) then
           Some (Inl (ValueError (''year '' @ str_of_int (year (spec_tick dlo iv n))
              @ '' is out of range'')))
         else Some (Inr (map (\<lambda>j. PDate (spec_tick dlo iv j)) [0..<n]))))"
    by (rule get_big_date_limits_ticks[OF d2]) simp
qed

text \<open>Two datetimes of one day are a span without a whole day.\<close>

lemma get_big_date_limits_within_a_day:
  "get_big_date_limits [PDatetime (Date 2024 1 15) 0, PDatetime (Date 2024 1 15) 3600000000] 6
     = Some (Inl (ValueError ''Dates must have a positive range.''))"
  by (simp add: get_big_date_limits_def date_lt_def us_per_day_def)

text \<open>
  On dates the span is a whole number of days, so that two distinct dates are enough for
  a positive span; the first case of the theorem then does not arise.
\<close>

lemma span_days_dates:
  assumes "list_all is_py_date vs" "x \<in> set vs" "y \<in> set vs" "x \<noteq> y"
    and "py_min vs = Inr lo" "py_max vs = Inr hi"
  shows "0 < span_days lo hi"
proof -
  have dv: "date_values vs" using assms(1,2) by (auto simp: date_values_def)
  obtain lo' hi' where m: "lo' \<in> set vs" "hi' \<in> set vs" "py_min vs = Inr lo'"
    "py_max vs = Inr hi'" "\<forall>x \<in> set vs. timestamp lo' \<le> timestamp x"
    "\<forall>x \<in> set vs. timestamp x \<le> timestamp hi'"
    using date_values_min_max[OF dv] by blast
  have e: "lo' = lo" "hi' = hi" using m(3,4) assms(5,6) by simp_all
  have d: "is_py_date v" if "v \<in> set vs" for v
    using assms(1) that by (simp add: list_all_iff)
  obtain a where a: "x = PDate a" "valid_date a"
    using d[OF assms(2)] by (cases x) (simp_all add: py_date_def)
  obtain b where b: "y = PDate b" "valid_date b"
    using d[OF assms(3)] by (cases y) (simp_all add: py_date_def)
  obtain l where l: "lo = PDate l" using d[OF m(1)] unfolding e by (cases lo) simp_all
  obtain h where h: "hi = PDate h" using d[OF m(2)] unfolding e by (cases hi) simp_all
  have "toordinal a \<noteq> toordinal b" using toordinal_inj[OF a(2) b(2)] assms(4) a(1) b(1) by auto
  then have "timestamp x \<noteq> timestamp y" unfolding a(1) b(1) by (simp add: us_per_day_def)
  moreover have "timestamp lo \<le> timestamp x" "timestamp lo \<le> timestamp y"
    "timestamp x \<le> timestamp hi" "timestamp y \<le> timestamp hi"
    using m(5,6) assms(2,3) unfolding e by blast+
  ultimately have "timestamp lo < timestamp hi" by linarith
  then have "toordinal l < toordinal h" unfolding l h by (simp add: us_per_day_def)
  moreover have "timestamp hi - timestamp lo = (toordinal h - toordinal l) * us_per_day"
    unfolding l h by (simp add: left_diff_distrib)
  then have "span_days lo hi = toordinal h - toordinal l"
    unfolding span_days_def by (simp add: us_per_day_def)
  ultimately show ?thesis by simp
qed

text \<open>
  The claim as it is worded fails at the end of the calendar. For the dates 9999-11-01
  and 9999-11-30 with one tick the interval is one month and the boundary is 9999-12-01;
  the loop emits 9999-11-01 and 9999-12-01 and then constructs the first day of the year
  10000, which the constructor refuses: no ticks are returned.
\<close>

lemma toordinal_9999_11: "toordinal (Date 9999 11 30) - toordinal (Date 9999 11 1) = 29"
  by code_simp

lemma date_add_days_9999_11_1: "date_add_days (Date 9999 11 1) 31 = Date 9999 12 2"
  by (simp add: date_add_days_def eval_nat_numeral next_day_def days_in_month_def is_leap_def)

lemma datetime_9999:
  "datetime 9999 11 1 = Inr (Date 9999 11 1)" "datetime 9999 12 1 = Inr (Date 9999 12 1)"
  by (simp_all add: datetime_def MINYEAR_def MAXYEAR_def days_in_month_def)

lemma str_of_int_10000: "str_of_int 10000 = ''10000''"
  by (simp add: str_of_int_def)

lemma datetime_10000:
  "datetime 10000 1 1 = Inl (ValueError ''year 10000 is out of range'')"
  by (simp add: datetime_def MINYEAR_def MAXYEAR_def str_of_int_10000)

lemma tick_loop_9999:
  "tick_loop 1 (Date 9999 12 1) (Date 9999 11 1) [] =
     Some (Inl (ValueError ''year 10000 is out of range''))"
  by (subst tick_loop.simps,
      simp add: date_le_def date_lt_def Let_def datetime_9999 datetime_10000)+

theorem get_big_date_limits_year_10000:
  "get_big_date_limits [PDate (Date 9999 11 1), PDate (Date 9999 11 30)] 1 =
     Some (Inl (ValueError ''year 10000 is out of range''))"
  by (simp add: get_big_date_limits_def date_lt_def toordinal_9999_11 datetime_9999
      datetime_add_days_def date_add_days_9999_11_1 MAXYEAR_def tick_loop_9999 us_per_day_def)

section \<open>Limits of the example charts\<close>

lemma log10_small:
  assumes "1 / 10 < x" "x < 1"
  shows "- 1 < log 10 x" "log 10 x < 0"
proof -
  have x: "0 < x" using assms(1) by linarith
  have "log 10 (1 / 10) < log 10 x" using assms(1) x by (subst log_less_cancel_iff) simp_all
  then show "- 1 < log 10 x" by (simp add: log_divide)
  have "log 10 x < log 10 1" using assms(2) x by (subst log_less_cancel_iff) simp_all
  then show "log 10 x < 0" by simp
qed

lemma upto_0_2: "[0..2::int] = [0, 1, 2]"
  by code_simp

lemma upto_0_3: "[0..3::int] = [0, 1, 2, 3]"
  by code_simp

lemma numeric_small_raw_pad:
  assumes "py_min vs = Inr (PNum lo)" "py_max vs = Inr (PNum hi)" "max_ticks \<noteq> 0"
    and "1 / 10 < \<bar>(1.2 * hi - 0.95 * lo) / real_of_int max_ticks\<bar>"
    and "\<bar>(1.2 * hi - 0.95 * lo) / real_of_int max_ticks\<bar> < 1"
  shows "get_numeric_limits vs max_ticks =
     Inr (map (\<lambda>y. PNum (real_of_int y * 2)) [\<lfloor>0.95 * lo / 2\<rfloor>..\<lceil>1.2 * hi / 2\<rceil>])"
proof -
  define raw where "raw = \<bar>(1.2 * hi - 0.95 * lo) / real_of_int max_ticks\<bar>"
  have l: "- 1 < log 10 raw" "log 10 raw < 0"
    using log10_small[of raw] assms(4,5) unfolding raw_def by simp_all
  have i: "py_int (log 10 raw) = 0" using l by (intro py_int_zero) linarith+
  have p: "0 < raw" using assms(4) unfolding raw_def by linarith
  have lg: "log10 raw = Inr (log 10 raw)" using p by (simp add: log10_def)
  have r: "log 10 raw - real_of_int 0 < 0.301" using l(2) by simp
  have "get_numeric_limits vs max_ticks =
     (case log10 raw of Inl e \<Rightarrow> Inl e | Inr lg \<Rightarrow>
      let remainder = lg - real_of_int (py_int lg);
          leader = (if remainder < 0.301 then 2 else (if remainder < 0.698 then 5 else 10));
          pad = leader * 10 powi py_int lg;
          start = \<lfloor>0.95 * lo / pad\<rfloor>;
          end' = \<lceil>1.2 * hi / pad\<rceil>
      in Inr (map (\<lambda>y. PNum (real_of_int y * pad)) [start..end']))"
    unfolding get_numeric_limits_def assms(1,2) raw_def
    using assms(3) by (simp only: the_num.simps sum.case if_False Let_def)
  also have "\<dots> = Inr (map (\<lambda>y. PNum (real_of_int y * 2)) [\<lfloor>0.95 * lo / 2\<rfloor>..\<lceil>1.2 * hi / 2\<rceil>])"
    unfolding lg using r by (simp add: i Let_def)
  finally show ?thesis .
qed

lemma x_limits: "get_limits [PNum 0, PNum 5] 12 = Some (Inr [PNum 0, PNum 2, PNum 4, PNum 6])"
proof -
  have "get_numeric_limits [PNum 0, PNum 5] 12 =
     Inr (map (\<lambda>y. PNum (real_of_int y * 2)) [\<lfloor>0.95 * 0 / 2 :: real\<rfloor>..\<lceil>1.2 * 5 / 2 :: real\<rceil>])"
    by (rule numeric_small_raw_pad) simp_all
  moreover have "\<lfloor>0.95 * 0 / 2 :: real\<rfloor> = 0" "\<lceil>1.2 * 5 / 2 :: real\<rceil> = 3"
    by (simp_all add: floor_eq_iff ceiling_eq_iff)
  ultimately show ?thesis by (simp add: get_limits_def upto_0_3)
qed

section \<open>Element lists and the proportion of range\<close>

lemma collapse_singletons:
  "collapse_element_list (\<lambda>b. [f b]) bs = map f bs"
  by (induction bs) (simp_all add: collapse_element_list_def)

lemma Axis_get_element_list_fragments:
  "Axis_get_element_list fmt ax =
     (case axis_line ax of None \<Rightarrow> [] | Some l \<Rightarrow> [line_markup fmt l])
       @ map (line_markup fmt) (tick_lines ax)
       @ map (text_markup fmt) (tick_text ax)
       @ map (line_markup fmt) (grid_lines ax)"
proof -
  have l: "Line_get_element_list fmt = (\<lambda>b. [line_markup fmt b])"
    by (rule ext) (simp add: Line_get_element_list_def)
  have t: "Text_get_element_list fmt = (\<lambda>b. [text_markup fmt b])"
    by (rule ext) (simp add: Text_get_element_list_def)
  show ?thesis
    unfolding Axis_get_element_list_def l t collapse_singletons
    by (simp add: safe_get_element_list_def split: option.split)
qed

lemma Chart_get_element_list_parts:
  "Chart_get_element_list fmt c =
     (case x_axis c of None \<Rightarrow> [] | Some a \<Rightarrow> Axis_get_element_list fmt a)
       @ (case y_axis c of None \<Rightarrow> [] | Some a \<Rightarrow> Axis_get_element_list fmt a)
       @ (case legend c of None \<Rightarrow> [] | Some g \<Rightarrow> LineLegend_get_element_list fmt g)
       @ map (path_markup fmt) (map snd (series c))
       @ concat (map (get_element_list fmt) (custom_elements c))"
proof -
  have s: "concat (map (get_element_list fmt \<circ> (\<lambda>(s, v). ShapeSeries v)) srs)
      = map (path_markup fmt \<circ> snd) srs" for srs
    by (induction srs) (auto simp: SimpleLineSeries_get_element_list_def)
  show ?thesis
    unfolding Chart_get_element_list_def Let_def
    by (simp add: s split: option.split)
qed

text \<open>
  Claim C6 (composition order). The element list of an axis is the markup of its base line,
  when it has one, then the markup of its tick lines, of its tick labels and of its grid
  lines, each in list order. The element list of a chart is the element list of the x axis,
  of the y axis and of the legend, each when present, then the path of every series in the
  order of the series dictionary, then the element lists of the custom elements in the
  order they were added.
\<close>

theorem element_list_order:
  "Axis_get_element_list fmt ax =
     (case axis_line ax of None \<Rightarrow> [] | Some l \<Rightarrow> [line_markup fmt l])
       @ map (line_markup fmt) (tick_lines ax)
       @ map (text_markup fmt) (tick_text ax)
       @ map (line_markup fmt) (grid_lines ax)
   \<and> Chart_get_element_list fmt c =
     (case x_axis c of None \<Rightarrow> [] | Some a \<Rightarrow> Axis_get_element_list fmt a)
       @ (case y_axis c of None \<Rightarrow> [] | Some a \<Rightarrow> Axis_get_element_list fmt a)
       @ (case legend c of None \<Rightarrow> [] | Some g \<Rightarrow> LineLegend_get_element_list fmt g)
       @ map (path_markup fmt) (map snd (series c))
       @ concat (map (get_element_list fmt) (custom_elements c))"
  using Axis_get_element_list_fragments[of fmt ax] Chart_get_element_list_parts[of fmt c]
  by (rule conjI)

lemma min_loop_PNum:
  "\<exists>lo \<in> set (m # rs). min_loop (map PNum rs) (PNum m) = Inr (PNum lo)
     \<and> (\<forall>r \<in> set (m # rs). lo \<le> r)"
proof (induction rs arbitrary: m)
  case Nil
  show ?case by simp
next
  case (Cons x rs)
  define m' where "m' = (if x < m then x else m)"
  obtain lo where lo: "lo \<in> set (m' # rs)" "min_loop (map PNum rs) (PNum m') = Inr (PNum lo)"
    "\<forall>r \<in> set (m' # rs). lo \<le> r"
    using Cons.IH[of m'] by blast
  have e: "min_loop (map PNum (x # rs)) (PNum m) = Inr (PNum lo)"
    using lo(2) unfolding m'_def by (cases "x < m"; simp)
  have "lo \<le> m'" using lo(3) by simp
  then have "lo \<le> x" "lo \<le> m" unfolding m'_def by (auto split: if_splits)
  then have "\<forall>r \<in> set (m # x # rs). lo \<le> r" using lo(3) by simp
  moreover have "lo \<in> set (m # x # rs)" using lo(1) by (auto simp: m'_def split: if_splits)
  ultimately show ?case using e by blast
qed

lemma max_loop_PNum:
  "\<exists>hi \<in> set (m # rs). max_loop (map PNum rs) (PNum m) = Inr (PNum hi)
     \<and> (\<forall>r \<in> set (m # rs). r \<le> hi)"
proof (induction rs arbitrary: m)
  case Nil
  show ?case by simp
next
  case (Cons x rs)
  define m' where "m' = (if m < x then x else m)"
  obtain hi where hi: "hi \<in> set (m' # rs)" "max_loop (map PNum rs) (PNum m') = Inr (PNum hi)"
    "\<forall>r \<in> set (m' # rs). r \<le> hi"
    using Cons.IH[of m'] by blast
  have e: "max_loop (map PNum (x # rs)) (PNum m) = Inr (PNum hi)"
    using hi(2) unfolding m'_def by (cases "m < x"; simp)
  have "m' \<le> hi" using hi(3) by simp
  then have "x \<le> hi" "m \<le> hi" unfolding m'_def by (auto split: if_splits)
  then have "\<forall>r \<in> set (m # x # rs). r \<le> hi" using hi(3) by simp
  moreover have "hi \<in> set (m # x # rs)" using hi(1) by (auto simp: m'_def split: if_splits)
  ultimately show ?case using e by blast
qed

lemma py_min_PNum:
  assumes "rs \<noteq> []"
  obtains lo where "lo \<in> set rs" "py_min (map PNum rs) = Inr (PNum lo)" "\<forall>r \<in> set rs. lo \<le> r"
proof -
  obtain m rest where "rs = m # rest" using assms by (cases rs) auto
  then show ?thesis using min_loop_PNum[of m rest] that by auto
qed

lemma py_max_PNum:
  assumes "rs \<noteq> []"
  obtains hi where "hi \<in> set rs" "py_max (map PNum rs) = Inr (PNum hi)" "\<forall>r \<in> set rs. r \<le> hi"
proof -
  obtain m rest where "rs = m # rest" using assms by (cases rs) auto
  then show ?thesis using max_loop_PNum[of m rest] that by auto
qed

lemma proportion_of_range_numbers:
  assumes "axis_limits ax = map PNum rs" "\<exists>a \<in> set rs. \<exists>b \<in> set rs. a \<noteq> b"
  shows "\<exists>lo hi. py_min (axis_limits ax) = Inr lo \<and> py_max (axis_limits ax) = Inr hi
     \<and> proportion_of_range ax lo = Inr 0 \<and> proportion_of_range ax hi = Inr 1"
proof -
  have ne: "rs \<noteq> []" using assms(2) by auto
  obtain lo where lo: "lo \<in> set rs" "py_min (map PNum rs) = Inr (PNum lo)" "\<forall>r \<in> set rs. lo \<le> r"
    using py_min_PNum[OF ne] by blast
  obtain hi where hi: "hi \<in> set rs" "py_max (map PNum rs) = Inr (PNum hi)" "\<forall>r \<in> set rs. r \<le> hi"
    using py_max_PNum[OF ne] by blast
  obtain a b where ab: "a \<in> set rs" "b \<in> set rs" "a \<noteq> b" using assms(2) by blast
  have "lo \<le> a" "a \<le> hi" "lo \<le> b" "b \<le> hi" using lo(3) hi(3) ab by auto
  then have d: "hi - lo \<noteq> 0" using ab(3) by linarith
  have "proportion_of_range ax (PNum lo) = Inr 0" "proportion_of_range ax (PNum hi) = Inr 1"
    using d by (simp_all add: proportion_of_range_def assms(1) lo(2) hi(2))
  then show ?thesis using lo(2) hi(2) assms(1) by auto
qed

lemma proportion_of_range_dates:
  assumes "axis_limits ax = map PDate ds" "\<forall>d \<in> set ds. valid_date d"
    "\<exists>a \<in> set ds. \<exists>b \<in> set ds. a \<noteq> b"
  shows "\<exists>lo hi. py_min (axis_limits ax) = Inr lo \<and> py_max (axis_limits ax) = Inr hi
     \<and> proportion_of_range ax lo = Inr 0 \<and> proportion_of_range ax hi = Inr 1"
proof -
  have ne: "ds \<noteq> []" using assms(3) by auto
  obtain lo where lo: "lo \<in> set ds" "py_min (map PDate ds) = Inr (PDate lo)"
    "\<forall>d \<in> set ds. \<not> date_lt d lo"
    using py_min_PDate[OF ne] by blast
  obtain hi where hi: "hi \<in> set ds" "py_max (map PDate ds) = Inr (PDate hi)"
    "\<forall>d \<in> set ds. \<not> date_lt hi d"
    using py_max_PDate[OF ne] by blast
  obtain a b where ab: "a \<in> set ds" "b \<in> set ds" "a \<noteq> b" using assms(3) by blast
  have "lo \<noteq> hi"
  proof
    assume e: "lo = hi"
    have "a = lo" using date_lt_total[of a lo] lo(3) hi(3) ab(1) e by blast
    moreover have "b = lo" using date_lt_total[of b lo] lo(3) hi(3) ab(2) e by blast
    ultimately show False using ab(3) by simp
  qed
  moreover have "\<not> date_lt hi lo" using hi(3) lo(1) by blast
  ultimately have "date_lt lo hi" using date_lt_total[of lo hi] by blast
  then have "toordinal lo < toordinal hi"
    using toordinal_mono assms(2) lo(1) hi(1) by blast
  then have d: "(toordinal hi - toordinal lo) * us_per_day \<noteq> 0"
    by (simp add: us_per_day_def)
  have "proportion_of_range ax (PDate lo) = Inr 0" "proportion_of_range ax (PDate hi) = Inr 1"
    using d by (simp_all add: proportion_of_range_def assms(1) lo(2) hi(2))
  then show ?thesis using lo(2) hi(2) assms(1) by auto
qed

text \<open>
  Claim C8. For an axis whose limits are numbers, or valid dates, as \<open>get_limits\<close> returns
  them, and contain two distinct values, the proportion of the smallest limit is 0 and the
  proportion of the largest limit is 1.
\<close>

theorem proportion_of_range_ends:
  assumes "(\<exists>rs. axis_limits ax = map PNum rs)
         \<or> (\<exists>ds. axis_limits ax = map PDate ds \<and> (\<forall>d \<in> set ds. valid_date d))"
    and "\<exists>a \<in> set (axis_limits ax). \<exists>b \<in> set (axis_limits ax). a \<noteq> b"
  shows "\<exists>lo hi. py_min (axis_limits ax) = Inr lo \<and> py_max (axis_limits ax) = Inr hi
     \<and> proportion_of_range ax lo = Inr 0 \<and> proportion_of_range ax hi = Inr 1"
  using assms(1)
proof (elim disjE exE conjE)
  fix rs assume e: "axis_limits ax = map PNum rs"
  have "\<exists>a \<in> set rs. \<exists>b \<in> set rs. a \<noteq> b" using assms(2) unfolding e by auto
  then show ?thesis using proportion_of_range_numbers[OF e] by blast
next
  fix ds assume e: "axis_limits ax = map PDate ds" and v: "\<forall>d \<in> set ds. valid_date d"
  have "\<exists>a \<in> set ds. \<exists>b \<in> set ds. a \<noteq> b" using assms(2) unfolding e by auto
  then show ?thesis using proportion_of_range_dates[OF e v] by blast
qed

section \<open>Where the numeric limits follow the specification\<close>

text \<open>
  The limits are the multiples of the step between the floor of \<open>0.95 * min\<close> and the
  ceiling of \<open>1.2 * max\<close>, in steps. For data that is not negative they bracket the data
  and are at least two; for a raw step of at least one the step is the step of the
  specification; a collection with fewer than two distinct elements or of mixed types is
  refused with \<^verbatim>\<open>ValueError\<close>. These are statements about the exact computation.
\<close>

lemma code_step_pos: "0 < code_step lo hi max_ticks"
  by (simp add: code_step_def Let_def)

lemma get_numeric_limits_closed:
  assumes "py_min vs = Inr (PNum lo)" "py_max vs = Inr (PNum hi)" "max_ticks \<noteq> 0"
    and "1.2 * hi \<noteq> 0.95 * lo"
  shows "get_numeric_limits vs max_ticks =
     Inr (map (\<lambda>y. PNum (real_of_int y * code_step lo hi max_ticks))
       [\<lfloor>0.95 * lo / code_step lo hi max_ticks\<rfloor>..\<lceil>1.2 * hi / code_step lo hi max_ticks\<rceil>])"
proof -
  define raw where "raw = \<bar>(1.2 * hi - 0.95 * lo) / real_of_int max_ticks\<bar>"
  have p: "0 < raw" unfolding raw_def using assms(3,4) by simp
  have lg: "log10 raw = Inr (log 10 raw)" using p by (simp add: log10_def)
  have "get_numeric_limits vs max_ticks =
     (case log10 raw of Inl e \<Rightarrow> Inl e | Inr lg \<Rightarrow>
      let remainder = lg - real_of_int (py_int lg);
          leader = (if remainder < 0.301 then 2 else (if remainder < 0.698 then 5 else 10));
          pad = leader * 10 powi py_int lg;
          start = \<lfloor>0.95 * lo / pad\<rfloor>;
          end' = \<lceil>1.2 * hi / pad\<rceil>
      in Inr (map (\<lambda>y. PNum (real_of_int y * pad)) [start..end']))"
    unfolding get_numeric_limits_def assms(1,2) raw_def
    using assms(3) by (simp only: the_num.simps sum.case if_False Let_def)
  also have "\<dots> = Inr (map (\<lambda>y. PNum (real_of_int y * code_step lo hi max_ticks))
       [\<lfloor>0.95 * lo / code_step lo hi max_ticks\<rfloor>..\<lceil>1.2 * hi / code_step lo hi max_ticks\<rceil>])"
    by (simp only: lg[unfolded raw_def] code_step_def raw_def sum.case Let_def)
  finally show ?thesis .
qed

lemma remdups_two_distinct:
  assumes "a \<in> set xs" "b \<in> set xs" "a \<noteq> b"
  shows "\<not> length (remdups xs) \<le> 1"
proof
  assume "length (remdups xs) \<le> 1"
  then have "card (set xs) \<le> Suc 0" by (simp add: length_remdups_card_conv)
  then have "a = b" using assms(1,2) by (simp add: card_le_Suc0_iff_eq)
  then show False using assms(3) by simp
qed

lemma get_limits_numbers:
  assumes "\<exists>a \<in> set rs. \<exists>b \<in> set rs. a \<noteq> b"
  shows "get_limits (map PNum rs) max_ticks = Some (get_numeric_limits (map PNum rs) max_ticks)"
proof -
  obtain a b where ab: "a \<in> set rs" "b \<in> set rs" "a \<noteq> b" using assms by blast
  have "\<not> length (remdups (map PNum rs)) \<le> 1"
    by (rule remdups_two_distinct[of "PNum a" _ "PNum b"]) (use ab in auto)
  moreover have "list_all is_numeric (map PNum rs)" by (simp add: list_all_iff)
  moreover have "\<not> list_all is_date_like (map PNum rs)" using ab(1) by (auto simp: list_all_iff)
  ultimately show ?thesis by (simp add: get_limits_def)
qed

lemma get_limits_nonnegative_numbers:
  assumes "\<forall>r \<in> set rs. 0 \<le> r" "\<exists>a \<in> set rs. \<exists>b \<in> set rs. a \<noteq> b" "0 < max_ticks"
  shows "\<exists>start stop pad. 0 < pad \<and> start < stop
     \<and> get_limits (map PNum rs) max_ticks =
         Some (Inr (map (\<lambda>y. PNum (real_of_int y * pad)) [start..stop]))
     \<and> real_of_int start * pad \<le> Min (set rs) \<and> Max (set rs) \<le> real_of_int stop * pad"
proof -
  have ne: "rs \<noteq> []" using assms(2) by auto
  obtain lo where lo: "lo \<in> set rs" "py_min (map PNum rs) = Inr (PNum lo)" "\<forall>r \<in> set rs. lo \<le> r"
    using py_min_PNum[OF ne] by blast
  obtain hi where hi: "hi \<in> set rs" "py_max (map PNum rs) = Inr (PNum hi)" "\<forall>r \<in> set rs. r \<le> hi"
    using py_max_PNum[OF ne] by blast
  obtain a b where ab: "a \<in> set rs" "b \<in> set rs" "a \<noteq> b" using assms(2) by blast
  have "lo \<le> a" "a \<le> hi" "lo \<le> b" "b \<le> hi" using lo(3) hi(3) ab by auto
  then have lt: "lo < hi" using ab(3) by linarith
  have l0: "0 \<le> lo" using assms(1) lo(1) by blast
  have mn: "Min (set rs) = lo" using lo(1,3) by (intro Min_eqI) auto
  have mx: "Max (set rs) = hi" using hi(1,3) by (intro Max_eqI) auto
  define pad where "pad = code_step lo hi max_ticks"
  define start where "start = \<lfloor>0.95 * lo / pad\<rfloor>"
  define stop where "stop = \<lceil>1.2 * hi / pad\<rceil>"
  have pp: "0 < pad" unfolding pad_def by (rule code_step_pos)
  have "(95 / 100) * lo < (12 / 10) * hi" using lt l0 by linarith
  then have lt2: "0.95 * lo < 1.2 * hi" by simp
  then have ne2: "1.2 * hi \<noteq> 0.95 * lo" by simp
  have g: "get_limits (map PNum rs) max_ticks =
      Some (Inr (map (\<lambda>y. PNum (real_of_int y * pad)) [start..stop]))"
    unfolding get_limits_numbers[OF assms(2)] pad_def start_def stop_def
    using assms(3) by (subst get_numeric_limits_closed[OF lo(2) hi(2) _ ne2]) simp_all
  have "real_of_int start \<le> 0.95 * lo / pad" unfolding start_def by (rule of_int_floor_le)
  then have s1: "real_of_int start * pad \<le> 0.95 * lo" using pp by (simp add: pos_le_divide_eq)
  have "1.2 * hi / pad \<le> real_of_int stop" unfolding stop_def by (rule le_of_int_ceiling)
  then have s2: "1.2 * hi \<le> real_of_int stop * pad" using pp by (simp add: pos_divide_le_eq)
  have "real_of_int start * pad < real_of_int stop * pad" using s1 s2 lt2 by linarith
  then have "real_of_int start < real_of_int stop" using pp by simp
  then have ss: "start < stop" by simp
  have "0.95 * lo \<le> lo" "hi \<le> 1.2 * hi" using l0 lt by simp_all
  then have "real_of_int start * pad \<le> lo" "hi \<le> real_of_int stop * pad"
    using s1 s2 by linarith+
  then show ?thesis using pp ss g mn mx by blast
qed

lemma code_step_spec_step:
  assumes "Min (set rs) = lo" "Max (set rs) = hi"
    and "1 \<le> \<bar>(1.2 * hi - 0.95 * lo) / real_of_int max_ticks\<bar>"
  shows "code_step lo hi max_ticks = spec_step rs max_ticks"
proof -
  have "0 \<le> log 10 \<bar>(1.2 * hi - 0.95 * lo) / real_of_int max_ticks\<bar>"
    using assms(3) by (simp add: zero_le_log_cancel_iff)
  then have "py_int (log 10 \<bar>(1.2 * hi - 0.95 * lo) / real_of_int max_ticks\<bar>)
      = \<lfloor>log 10 \<bar>(1.2 * hi - 0.95 * lo) / real_of_int max_ticks\<bar>\<rfloor>"
    by (simp add: py_int_def)
  then show ?thesis
    unfolding code_step_def spec_step_def assms(1,2) Let_def by (simp only:)
qed

lemma get_limits_invalid:
  assumes "length (remdups vs) \<le> 1 \<or> (\<not> list_all is_date_like vs \<and> \<not> list_all is_numeric vs)"
  shows "\<exists>msg. get_limits vs max_ticks = Some (Inl (ValueError msg))"
  using assms by (auto simp: get_limits_def)

section \<open>The line chart\<close>

lemma map_fst_map_entry: "map fst (AList.map_entry k f xs) = map fst xs"
  by (induction xs) auto

lemma assign_colours_result:
  "n \<le> 3 \<Longrightarrow> assign_colours (enumerate n ks) srs = Inr srs'
     \<Longrightarrow> n + length ks \<le> 3 \<and> map fst srs' = map fst srs"
proof (induction ks arbitrary: n srs)
  case Nil
  then show ?case by simp
next
  case (Cons k ks)
  from Cons.prems have n: "n < 3"
    by (simp add: line_colour_defaults_def split: if_splits)
  then have "assign_colours (enumerate (Suc n) ks)
       (AList.map_entry k (\<lambda>s. s\<lparr>series_styles :=
          AList.update ''stroke'' (line_colour_defaults ! n) (series_styles s)\<rparr>) srs) = Inr srs'"
    using Cons.prems by (simp add: line_colour_defaults_def)
  moreover have "Suc n \<le> 3" using n by simp
  ultimately show ?case using Cons.IH by (fastforce simp: map_fst_map_entry)
qed

lemma assign_colours_too_many:
  "n \<le> 3 \<Longrightarrow> 3 < n + length ks \<Longrightarrow> assign_colours (enumerate n ks) srs = Inl IndexError"
proof (induction ks arbitrary: n srs)
  case Nil
  then show ?case by simp
next
  case (Cons k ks)
  show ?case
  proof (cases "n < 3")
    case True
    then have "assign_colours (enumerate (Suc n) ks)
       (AList.map_entry k (\<lambda>s. s\<lparr>series_styles :=
          AList.update ''stroke'' (line_colour_defaults ! n) (series_styles s)\<rparr>) srs) = Inl IndexError"
      using Cons.prems by (intro Cons.IH) simp_all
    then show ?thesis using True by (simp add: line_colour_defaults_def)
  next
    case False
    then show ?thesis by (simp add: line_colour_defaults_def)
  qed
qed

lemma build_series_keys:
  "build_series xa ya x_values ps acc = Inr srs \<Longrightarrow> distinct (map fst acc)
     \<Longrightarrow> distinct (map fst srs) \<and> set (map fst srs) = set (map fst acc) \<union> set (map fst ps)"
proof (induction ps arbitrary: acc)
  case Nil
  then show ?case by simp
next
  case (Cons p ps)
  obtain name y_value where p: "p = (name, y_value)" by (cases p)
  from Cons.prems(1) obtain s where
    s: "build_series xa ya x_values ps (AList.update name s acc) = Inr srs"
    unfolding p by (auto split: sum.splits)
  have "distinct (map fst (AList.update name s acc))"
    using Cons.prems(2) by (rule distinct_update)
  from Cons.IH[OF s this] show ?case
    unfolding p using dom_update[of name s acc] by auto
qed

text \<open>
  The series stored under a name is built from the last list of y values paired with that
  name; a name that is paired with no list keeps what the dictionary held before.
\<close>

lemma build_series_lookup:
  "build_series xa ya x_values ps acc = Inr srs \<Longrightarrow>
     (case map_of (rev ps) name of
        None \<Rightarrow> map_of srs name = map_of acc name
      | Some y_value \<Rightarrow>
          (\<exists>xs ys s. SimpleXAxis_get_positions xa x_values = Inr xs
             \<and> YAxis_get_positions ya y_value = Inr ys
             \<and> SimpleLineSeries (map (\<lambda>(px, py). Point px py) (zip xs ys)) = Inr s
             \<and> map_of srs name = Some s))"
proof (induction ps arbitrary: acc)
  case Nil
  then show ?case by simp
next
  case (Cons p ps)
  obtain n y where p: "p = (n, y)" by (cases p)
  from Cons.prems obtain xs ys s0 where
    xs: "SimpleXAxis_get_positions xa x_values = Inr xs"
    and ys: "YAxis_get_positions ya y = Inr ys"
    and s0: "SimpleLineSeries (map (\<lambda>(px, py). Point px py) (zip xs ys)) = Inr s0"
    and b: "build_series xa ya x_values ps (AList.update n s0 acc) = Inr srs"
    unfolding p by (auto split: sum.splits)
  note IH = Cons.IH[OF b]
  show ?case
  proof (cases "map_of (rev ps) name")
    case (Some y_value)
    then have e: "map_of (rev (p # ps)) name = Some y_value" by (simp add: map_add_def)
    show ?thesis unfolding e using IH Some by simp
  next
    case None
    then have k: "map_of srs name = map_of (AList.update n s0 acc) name" using IH by simp
    show ?thesis
    proof (cases "n = name")
      case True
      then have e: "map_of (rev (p # ps)) name = Some y" using None by (simp add: p map_add_def)
      have "map_of srs name = Some s0" using k True by (simp add: update_conv')
      then show ?thesis unfolding e using xs ys s0 by simp
    next
      case False
      then have e: "map_of (rev (p # ps)) name = None" using None by (simp add: p map_add_def)
      have "map_of srs name = map_of acc name" using k False by (simp add: update_conv')
      then show ?thesis unfolding e by simp
    qed
  qed
qed

text \<open>The assignment of the colours changes the styles of the series only.\<close>

lemma map_of_map_entry_points:
  "map_option series_points
      (map_of (AList.map_entry k (\<lambda>s. s\<lparr>series_styles := f s\<rparr>) srs) name)
     = map_option series_points (map_of srs name)"
  by (induction srs) auto

lemma assign_colours_points:
  "assign_colours ixs srs = Inr srs' \<Longrightarrow>
     map_option series_points (map_of srs' name) = map_option series_points (map_of srs name)"
proof (induction ixs arbitrary: srs)
  case Nil
  then show ?case by simp
next
  case (Cons ix ixs)
  obtain index k where ix: "ix = (index, k)" by (cases ix)
  from Cons.prems have "assign_colours ixs
       (AList.map_entry k (\<lambda>s. s\<lparr>series_styles :=
          AList.update ''stroke'' (line_colour_defaults ! index) (series_styles s)\<rparr>) srs) = Inr srs'"
    unfolding ix by (simp split: if_splits)
  from Cons.IH[OF this] show ?case by (simp add: map_of_map_entry_points)
qed

text \<open>
  Claim C10, as amended. A series whose name repeats an earlier one replaces it, so the
  chart holds one series per distinct name that is paired with a list of y values, and
  the series of a name is built from the last list paired with that name. When the
  construction succeeds, the chart holds at most three series; and whenever the axes
  and more than three series have been built, the assignment of the default colours
  raises \<^verbatim>\<open>IndexError\<close>, and so does the construction.
\<close>

theorem SimpleLineChart_colour_limit:
  "(\<forall>c. SimpleLineChart_init x_values y_values (Some y_names) x_max_ticks y_max_ticks
          x_margin y_margin h w x_labels y_labels = Some (Inr c)
      \<longrightarrow> distinct (map fst (series c))
        \<and> set (map fst (series c)) = set (map fst (zip y_names y_values))
        \<and> length (series c) \<le> 3
        \<and> (\<forall>name y_value. map_of (rev (zip y_names y_values)) name = Some y_value
             \<longrightarrow> (\<exists>xa ya xs ys s. x_axis c = Some xa \<and> y_axis c = Some ya
                   \<and> SimpleXAxis_get_positions xa x_values = Inr xs
                   \<and> YAxis_get_positions ya y_value = Inr ys
                   \<and> map_of (series c) name = Some s
                   \<and> series_points s = map (\<lambda>(px, py). Point px py) (zip xs ys))))
   \<and> (\<forall>srs. 3 < length srs
      \<longrightarrow> assign_colours (enumerate 0 (map fst srs)) srs = Inl IndexError)
   \<and> (\<forall>ya xa srs.
        YAxis_init x_margin y_margin (concat y_values) (h - 2 * y_margin) y_labels y_max_ticks
          None 5 = Some (Inr ya)
      \<longrightarrow> XAxis_init x_margin (h - y_margin) x_values (w - 2 * x_margin) x_labels x_max_ticks
          None 5 = Some (Inr xa)
      \<longrightarrow> build_series xa ya x_values (zip y_names y_values) [] = Inr srs
      \<longrightarrow> 3 < length srs
      \<longrightarrow> SimpleLineChart_init x_values y_values (Some y_names) x_max_ticks y_max_ticks
          x_margin y_margin h w x_labels y_labels = Some (Inl IndexError))"
proof (intro conjI allI impI)
  fix c
  assume a: "SimpleLineChart_init x_values y_values (Some y_names) x_max_ticks y_max_ticks
          x_margin y_margin h w x_labels y_labels = Some (Inr c)"
  then obtain xa ya srs srs' where
    b: "build_series xa ya x_values (zip y_names y_values) [] = Inr srs"
    and c: "assign_colours (enumerate 0 (map fst srs)) srs = Inr srs'"
    and s: "series c = srs'"
    and ax: "x_axis c = Some xa" "y_axis c = Some ya"
    unfolding SimpleLineChart_init_def Let_def
    by (auto split: option.splits sum.splits)
  have k: "distinct (map fst srs)" "set (map fst srs) = set (map fst (zip y_names y_values))"
    using build_series_keys[OF b] by simp_all
  have r: "length (map fst srs) \<le> 3" "map fst srs' = map fst srs"
    using assign_colours_result[OF _ c] by simp_all
  show "distinct (map fst (series c))" using k(1) r(2) s by simp
  show "set (map fst (series c)) = set (map fst (zip y_names y_values))" using k(2) r(2) s by simp
  have "length srs' = length (map fst srs')" by simp
  then show "length (series c) \<le> 3" using r s by simp
  fix name y_value
  assume l: "map_of (rev (zip y_names y_values)) name = Some y_value"
  from build_series_lookup[OF b, of name] l obtain xs ys s0 where
    xs: "SimpleXAxis_get_positions xa x_values = Inr xs"
    and ys: "YAxis_get_positions ya y_value = Inr ys"
    and s0: "SimpleLineSeries (map (\<lambda>(px, py). Point px py) (zip xs ys)) = Inr s0"
    and m: "map_of srs name = Some s0"
    by auto
  have pts: "series_points s0 = map (\<lambda>(px, py). Point px py) (zip xs ys)"
    using s0 by (auto simp: SimpleLineSeries_def split: list.splits)
  from assign_colours_points[OF c, of name] m obtain s1 where
    s1: "map_of srs' name = Some s1" "series_points s1 = series_points s0"
    by (cases "map_of srs' name") auto
  show "\<exists>xa ya xs ys s. x_axis c = Some xa \<and> y_axis c = Some ya
      \<and> SimpleXAxis_get_positions xa x_values = Inr xs
      \<and> YAxis_get_positions ya y_value = Inr ys
      \<and> map_of (series c) name = Some s
      \<and> series_points s = map (\<lambda>(px, py). Point px py) (zip xs ys)"
    using ax xs ys s1 pts s by auto
next
  fix srs :: "(string \<times> line_series) list"
  assume "3 < length srs"
  then show "assign_colours (enumerate 0 (map fst srs)) srs = Inl IndexError"
    by (intro assign_colours_too_many) simp_all
next
  fix ya xa srs
  assume ya: "YAxis_init x_margin y_margin (concat y_values) (h - 2 * y_margin) y_labels
      y_max_ticks None 5 = Some (Inr ya)"
    and xa: "XAxis_init x_margin (h - y_margin) x_values (w - 2 * x_margin) x_labels x_max_ticks
      None 5 = Some (Inr xa)"
    and b: "build_series xa ya x_values (zip y_names y_values) [] = Inr srs"
    and n: "3 < length srs"
  have "assign_colours (enumerate 0 (map fst srs)) srs = Inl IndexError"
    using n by (intro assign_colours_too_many) simp_all
  then show "SimpleLineChart_init x_values y_values (Some y_names) x_max_ticks y_max_ticks
      x_margin y_margin h w x_labels y_labels = Some (Inl IndexError)"
    unfolding SimpleLineChart_init_def Let_def by (simp add: ya xa b)
qed

text \<open>
  Claim C9. When \<open>y_names\<close> is \<^verbatim>\<open>None\<close> and the construction succeeds, the chart has exactly
  one series; it is named \<^verbatim>\<open>Series range(0, N)\<close> with \<open>N\<close> the number of lists of y values,
  and its points pair the x positions with the y positions of the first list only.
\<close>

theorem SimpleLineChart_default_series:
  assumes "SimpleLineChart_init x_values y_values None x_max_ticks y_max_ticks
          x_margin y_margin h w x_labels y_labels = Some (Inr c)"
  shows "\<exists>s xa ya xs ys.
      series c = [(''Series range(0, '' @ str_of_nat (length y_values) @ '')'', s)]
    \<and> y_values \<noteq> []
    \<and> x_axis c = Some xa \<and> y_axis c = Some ya
    \<and> SimpleXAxis_get_positions xa x_values = Inr xs
    \<and> YAxis_get_positions ya (hd y_values) = Inr ys
    \<and> series_points s = map (\<lambda>(px, py). Point px py) (zip xs ys)"
proof -
  define name where "name = default_series_name (length y_values)"
  obtain xa ya srs srs' where
    ya: "YAxis_init x_margin y_margin (concat y_values) (h - 2 * y_margin) y_labels y_max_ticks
           None 5 = Some (Inr ya)"
    and b: "build_series xa ya x_values (zip [name] y_values) [] = Inr srs"
    and col: "assign_colours (enumerate 0 (map fst srs)) srs = Inr srs'"
    and c: "c = (Chart_init h w)\<lparr>y_axis := Some ya, x_axis := Some xa, series := srs'\<rparr>"
    using assms unfolding SimpleLineChart_init_def Let_def name_def
    by (auto split: option.splits sum.splits)
  have ne: "y_values \<noteq> []"
  proof
    assume "y_values = []"
    then have "YAxis_init x_margin y_margin (concat y_values) (h - 2 * y_margin) y_labels
        y_max_ticks None 5 = Some (Inl (ValueError
          ''Values must be a non-empty iterable with at least two unique elements.''))"
      by (simp add: YAxis_init_def Axis_init_def get_limits_def)
    then show False using ya by simp
  qed
  then obtain y0 rest where y: "y_values = y0 # rest" by (cases y_values) auto
  from b obtain xs ys s where
    xs: "SimpleXAxis_get_positions xa x_values = Inr xs"
    and ys: "YAxis_get_positions ya y0 = Inr ys"
    and s: "SimpleLineSeries (map (\<lambda>(px, py). Point px py) (zip xs ys)) = Inr s"
    and srs: "srs = [(name, s)]"
    unfolding y by (auto split: sum.splits)
  have pts: "series_points s = map (\<lambda>(px, py). Point px py) (zip xs ys)"
    using s by (auto simp: SimpleLineSeries_def split: list.splits)
  define s' where "s' = s\<lparr>series_styles :=
      AList.update ''stroke'' (line_colour_defaults ! 0) (series_styles s)\<rparr>"
  have "srs' = [(name, s')]"
    using col unfolding srs s'_def by (simp add: line_colour_defaults_def)
  then have "series c = [(name, s')]" "x_axis c = Some xa" "y_axis c = Some ya"
    unfolding c by simp_all
  moreover have "series_points s' = map (\<lambda>(px, py). Point px py) (zip xs ys)"
    unfolding s'_def using pts by simp
  ultimately show ?thesis
    using ne xs ys unfolding y name_def default_series_name_def by auto
qed

lemma limits_1_2:
  assumes "py_min vs = Inr (PNum 1)" "py_max vs = Inr (PNum 2)"
    "1 < length (remdups vs)" "list_all is_numeric vs" "\<not> list_all is_date_like vs"
  shows "get_limits vs 12 = Some (Inr [PNum 0, PNum 2, PNum 4])"
proof -
  have "get_numeric_limits vs 12 =
     Inr (map (\<lambda>y. PNum (real_of_int y * 2)) [\<lfloor>0.95 * 1 / 2 :: real\<rfloor>..\<lceil>1.2 * 2 / 2 :: real\<rceil>])"
    using assms(1,2) by (rule numeric_small_raw_pad) simp_all
  moreover have "\<lfloor>0.95 * 1 / 2 :: real\<rfloor> = 0" "\<lceil>1.2 * 2 / 2 :: real\<rceil> = 2"
    by (simp_all add: floor_eq_iff ceiling_eq_iff)
  ultimately show ?thesis using assms(3-5) by (simp add: get_limits_def upto_0_2)
qed

lemma y4_limits:
  "get_limits [PNum 1, PNum 2, PNum 1, PNum 2, PNum 1, PNum 2, PNum 1, PNum 2] 12
     = Some (Inr [PNum 0, PNum 2, PNum 4])"
  by (rule limits_1_2) simp_all

lemma y2_limits:
  "get_limits [PNum 1, PNum 2, PNum 1, PNum 2] 12
     = Some (Inr [PNum 0, PNum 2, PNum 4])"
  by (rule limits_1_2) simp_all

lemma y1_limits:
  "get_limits [PNum 1, PNum 2] 12 = Some (Inr [PNum 0, PNum 2, PNum 4])"
  by (rule limits_1_2) simp_all

lemmas chart_eval =
  SimpleLineChart_init_def YAxis_init_def XAxis_init_def Axis_init_def Chart_init_def
  styles_or_default_def Let_def SimpleXAxis_get_positions_def YAxis_get_positions_def
  proportion_of_range_def SimpleLineSeries_def line_colour_defaults_def

text \<open>
  Four named lists of y values of which two share a name: the construction succeeds, with
  three series.
\<close>

theorem four_series_three_names:
  "series_names (SimpleLineChart_init [PNum 0, PNum 5]
      [[PNum 1, PNum 2], [PNum 1, PNum 2], [PNum 1, PNum 2], [PNum 1, PNum 2]]
      (Some [''a'', ''a'', ''b'', ''c'']) 12 12 100 100 600 800 no_label no_label)
   = Some (Inr [''a'', ''b'', ''c''])"
  unfolding series_names_def
  by (simp add: chart_eval y4_limits x_limits)

text \<open>
  The same names with a second list that differs from the first: the series \<open>a\<close> holds
  the points of the second list.
\<close>

lemma y4_limits_mixed:
  "get_limits [PNum 1, PNum 2, PNum 2, PNum 1, PNum 1, PNum 2, PNum 1, PNum 2] 12
     = Some (Inr [PNum 0, PNum 2, PNum 4])"
  by (rule limits_1_2) simp_all

lemma repeated_name_last_list:
  "\<exists>c s. SimpleLineChart_init [PNum 0, PNum 5]
      [[PNum 1, PNum 2], [PNum 2, PNum 1], [PNum 1, PNum 2], [PNum 1, PNum 2]]
      (Some [''a'', ''a'', ''b'', ''c'']) 12 12 100 100 600 800 no_label no_label = Some (Inr c)
    \<and> map_of (series c) ''a'' = Some s
    \<and> series_points s = [Point 100 300, Point 700 400]"
  by (simp add: chart_eval y4_limits_mixed x_limits)

theorem SimpleLineChart_colour_limit_witness:
  "\<exists>c xa ya xs ys s. SimpleLineChart_init [PNum 0, PNum 5]
      [[PNum 1, PNum 2], [PNum 2, PNum 1], [PNum 1, PNum 2], [PNum 1, PNum 2]]
      (Some [''a'', ''a'', ''b'', ''c'']) 12 12 100 100 600 800 no_label no_label = Some (Inr c)
    \<and> distinct (map fst (series c))
    \<and> set (map fst (series c)) = set (map fst (zip [''a'', ''a'', ''b'', ''c'']
          [[PNum 1, PNum 2], [PNum 2, PNum 1], [PNum 1, PNum 2], [PNum 1, PNum 2]]))
    \<and> length (series c) \<le> 3
    \<and> map_of (rev (zip [''a'', ''a'', ''b'', ''c'']
          [[PNum 1, PNum 2], [PNum 2, PNum 1], [PNum 1, PNum 2], [PNum 1, PNum 2]])) ''a'' = Some [PNum 2, PNum 1]
    \<and> x_axis c = Some xa \<and> y_axis c = Some ya
    \<and> SimpleXAxis_get_positions xa [PNum 0, PNum 5] = Inr xs
    \<and> YAxis_get_positions ya [PNum 2, PNum 1] = Inr ys
    \<and> map_of (series c) ''a'' = Some s
    \<and> series_points s = map (\<lambda>(px, py). Point px py) (zip xs ys)"
proof -
  obtain c where c: "SimpleLineChart_init [PNum 0, PNum 5]
      [[PNum 1, PNum 2], [PNum 2, PNum 1], [PNum 1, PNum 2], [PNum 1, PNum 2]]
      (Some [''a'', ''a'', ''b'', ''c'']) 12 12 100 100 600 800 no_label no_label = Some (Inr c)"
    by (simp add: chart_eval y4_limits_mixed x_limits)
  have l: "map_of (rev (zip [''a'', ''a'', ''b'', ''c'']
          [[PNum 1, PNum 2], [PNum 2, PNum 1], [PNum 1, PNum 2], [PNum 1, PNum 2]])) ''a'' = Some [PNum 2, PNum 1]"
    by simp
  note t = SimpleLineChart_colour_limit[of "[PNum 0, PNum 5]"
      "[[PNum 1, PNum 2], [PNum 2, PNum 1], [PNum 1, PNum 2], [PNum 1, PNum 2]]"
      "[''a'', ''a'', ''b'', ''c'']" 12 12 100 100 600 800 no_label no_label,
      THEN conjunct1, rule_format, OF c]
  have k: "distinct (map fst (series c))"
    "set (map fst (series c)) = set (map fst (zip [''a'', ''a'', ''b'', ''c'']
          [[PNum 1, PNum 2], [PNum 2, PNum 1], [PNum 1, PNum 2], [PNum 1, PNum 2]]))"
    "length (series c) \<le> 3"
    using t by blast+
  from t l obtain xa ya xs ys s where
    "x_axis c = Some xa" "y_axis c = Some ya"
    "SimpleXAxis_get_positions xa [PNum 0, PNum 5] = Inr xs"
    "YAxis_get_positions ya [PNum 2, PNum 1] = Inr ys"
    "map_of (series c) ''a'' = Some s"
    "series_points s = map (\<lambda>(px, py). Point px py) (zip xs ys)"
    by blast
  then show ?thesis using c k l by blast
qed

theorem SimpleLineChart_default_series_witness:
  "\<exists>c s xa ya xs ys.
      SimpleLineChart_init [PNum 0, PNum 5] [[PNum 1, PNum 2], [PNum 1, PNum 2]] None
        12 12 100 100 600 800 no_label no_label = Some (Inr c)
    \<and> series c = [(''Series range(0, '' @ str_of_nat (length [[PNum 1, PNum 2], [PNum 1, PNum 2]])
          @ '')'', s)]
    \<and> [[PNum 1, PNum 2], [PNum 1, PNum 2]] \<noteq> []
    \<and> x_axis c = Some xa \<and> y_axis c = Some ya
    \<and> SimpleXAxis_get_positions xa [PNum 0, PNum 5] = Inr xs
    \<and> YAxis_get_positions ya (hd [[PNum 1, PNum 2], [PNum 1, PNum 2]]) = Inr ys
    \<and> series_points s = map (\<lambda>(px, py). Point px py) (zip xs ys)"
proof -
  obtain c where c: "SimpleLineChart_init [PNum 0, PNum 5] [[PNum 1, PNum 2], [PNum 1, PNum 2]] None
        12 12 100 100 600 800 no_label no_label = Some (Inr c)"
    by (simp add: chart_eval y2_limits x_limits)
  show ?thesis
    using c SimpleLineChart_default_series[OF c] by blast
qed

lemma default_series_name_2: "default_series_name 2 = ''Series range(0, 2)''"
  by (simp add: default_series_name_def)

theorem proportion_of_range_ends_witness:
  "(\<exists>rs. axis_limits \<lparr>axis_position = Point 100 100, axis_styles = [],
        axis_data_points = [PNum 1, PNum 2], axis_length = 400,
        axis_limits = [PNum 0, PNum 2, PNum 4], axis_label_format = no_label,
        axis_line = None, tick_lines = [], tick_text = [], grid_lines = []\<rparr> = map PNum rs)
   \<and> (\<exists>a \<in> set (axis_limits \<lparr>axis_position = Point 100 100, axis_styles = [],
        axis_data_points = [PNum 1, PNum 2], axis_length = 400,
        axis_limits = [PNum 0, PNum 2, PNum 4], axis_label_format = no_label,
        axis_line = None, tick_lines = [], tick_text = [], grid_lines = []\<rparr>). \<exists>b \<in> set (axis_limits \<lparr>axis_position = Point 100 100, axis_styles = [],
        axis_data_points = [PNum 1, PNum 2], axis_length = 400,
        axis_limits = [PNum 0, PNum 2, PNum 4], axis_label_format = no_label,
        axis_line = None, tick_lines = [], tick_text = [], grid_lines = []\<rparr>). a \<noteq> b)
   \<and> (\<exists>lo hi. py_min (axis_limits \<lparr>axis_position = Point 100 100, axis_styles = [],
        axis_data_points = [PNum 1, PNum 2], axis_length = 400,
        axis_limits = [PNum 0, PNum 2, PNum 4], axis_label_format = no_label,
        axis_line = None, tick_lines = [], tick_text = [], grid_lines = []\<rparr>) = Inr lo
      \<and> py_max (axis_limits \<lparr>axis_position = Point 100 100, axis_styles = [],
        axis_data_points = [PNum 1, PNum 2], axis_length = 400,
        axis_limits = [PNum 0, PNum 2, PNum 4], axis_label_format = no_label,
        axis_line = None, tick_lines = [], tick_text = [], grid_lines = []\<rparr>) = Inr hi
      \<and> proportion_of_range \<lparr>axis_position = Point 100 100, axis_styles = [],
        axis_data_points = [PNum 1, PNum 2], axis_length = 400,
        axis_limits = [PNum 0, PNum 2, PNum 4], axis_label_format = no_label,
        axis_line = None, tick_lines = [], tick_text = [], grid_lines = []\<rparr> lo = Inr 0
      \<and> proportion_of_range \<lparr>axis_position = Point 100 100, axis_styles = [],
        axis_data_points = [PNum 1, PNum 2], axis_length = 400,
        axis_limits = [PNum 0, PNum 2, PNum 4], axis_label_format = no_label,
        axis_line = None, tick_lines = [], tick_text = [], grid_lines = []\<rparr> hi = Inr 1)"
proof -
  define ax where "ax = \<lparr>axis_position = Point 100 100, axis_styles = [],
        axis_data_points = [PNum 1, PNum 2], axis_length = 400,
        axis_limits = [PNum 0, PNum 2, PNum 4], axis_label_format = no_label,
        axis_line = None, tick_lines = [], tick_text = [], grid_lines = []\<rparr>"
  have l: "axis_limits ax = map PNum [0, 2, 4]" unfolding ax_def by simp
  then have r: "\<exists>rs. axis_limits ax = map PNum rs" by blast
  then have a: "(\<exists>rs. axis_limits ax = map PNum rs)
         \<or> (\<exists>ds. axis_limits ax = map PDate ds \<and> (\<forall>d \<in> set ds. valid_date d))" by blast
  have b: "\<exists>a \<in> set (axis_limits ax). \<exists>b \<in> set (axis_limits ax). a \<noteq> b"
    unfolding l by (intro bexI[of _ "PNum 0"] bexI[of _ "PNum 2"]) simp_all
  show ?thesis
    unfolding ax_def[symmetric]
    using r b proportion_of_range_ends[OF a b] by (intro conjI)
qed

text \<open>
  \<open>add_y_grid\<close> with one minor tick on the same chart: the major and the minor lines are
  all appended to the grid lines of the y axis.
\<close>

lemma add_y_grid_lines:
  "\<exists>c c'. SimpleLineChart_init [PNum 0, PNum 5] [[PNum 1, PNum 2]] (Some [''a''])
        12 12 100 100 600 800 no_label no_label = Some (Inr c)
    \<and> add_y_grid c 1 None None = Inr c'
    \<and> map_option grid_lines (x_axis c') = Some []
    \<and> map_option grid_lines (y_axis c') =
        Some [Line 300 100 0 400 (Some default_major_grid_styles),
              Line 200 100 0 400 (Some default_minor_grid_styles),
              Line 500 100 0 400 (Some default_major_grid_styles),
              Line 400 100 0 400 (Some default_minor_grid_styles),
              Line 700 100 0 400 (Some default_major_grid_styles),
              Line 600 100 0 400 (Some default_minor_grid_styles)]"
  by (simp add: chart_eval y1_limits x_limits add_y_grid_def style_or_def Line_def)

text \<open>
  Claim C7 (every grid line of a call is appended to the grid lines of the axis being
  gridded). \<open>add_x_grid\<close> with one minor tick, on the chart of the x values 0 and 5 and the
  y values 1 and 2 (y limits 0, 2 and 4): the two major lines are appended to the grid lines
  of the x axis and the two minor lines to the grid lines of the y axis.
\<close>

theorem add_x_grid_minor_lines:
  "\<exists>c c'. SimpleLineChart_init [PNum 0, PNum 5] [[PNum 1, PNum 2]] (Some [''a''])
        12 12 100 100 600 800 no_label no_label = Some (Inr c)
    \<and> map_option grid_lines (x_axis c) = Some []
    \<and> map_option grid_lines (y_axis c) = Some []
    \<and> add_x_grid c 1 None None = Inr c'
    \<and> map_option grid_lines (x_axis c') =
        Some [Line 100 300 600 0 (Some default_major_grid_styles),
              Line 100 100 600 0 (Some default_major_grid_styles)]
    \<and> map_option grid_lines (y_axis c') =
        Some [Line 100 400 600 0 (Some default_minor_grid_styles),
              Line 100 200 600 0 (Some default_minor_grid_styles)]"
  by (simp add: chart_eval y1_limits x_limits add_x_grid_def style_or_def Line_def)

subsection \<open>The limits of a constructed axis are numbers or valid dates\<close>

text \<open>
  Whatever \<open>get_limits\<close> returns is either a list of numbers or a list of valid calendar
  dates, and an axis constructor stores that list unchanged as the limits of the axis. The
  ticks of the date branch are first days of months, which is the invariant of the loop.
\<close>

lemma min_loop_mem: "min_loop xs m = Inr r \<Longrightarrow> r \<in> set (m # xs)"
  by (induction xs arbitrary: m) (auto split: sum.splits if_splits)

lemma max_loop_mem: "max_loop xs m = Inr r \<Longrightarrow> r \<in> set (m # xs)"
  by (induction xs arbitrary: m) (auto split: sum.splits if_splits)

lemma py_min_mem: "py_min xs = Inr r \<Longrightarrow> r \<in> set xs"
  by (cases xs) (auto dest: min_loop_mem)

lemma py_max_mem: "py_max xs = Inr r \<Longrightarrow> r \<in> set xs"
  by (cases xs) (auto dest: max_loop_mem)

lemma valid_first: "1 \<le> m \<Longrightarrow> m \<le> 12 \<Longrightarrow> valid_date (Date y m 1)"
  using days_in_month_bounds(1)[of y m] by (simp add: valid_date_def)

lemma is_month_start_valid: "is_month_start d \<Longrightarrow> valid_date d"
  using valid_first[of "month d" "year d"] by (cases d) (simp add: is_month_start_def)

lemma datetime_first_of_month: "datetime y m 1 = Inr x \<Longrightarrow> is_month_start x"
  by (auto simp: datetime_def is_month_start_def split: if_splits)

lemma tick_loop_dates:
  assumes "tick_loop iv e cur acc = Some (Inr r)" "date_ticks acc" "is_month_start cur"
  shows "date_ticks r"
proof -
  have "\<forall>r'. (Inr r :: error + pyval list) = Inr r' \<longrightarrow> date_ticks acc \<longrightarrow> is_month_start cur \<longrightarrow> date_ticks r'"
  proof (rule tick_loop.raw_induct[where P = "\<lambda>iv e cur acc res.
        \<forall>r'. res = Inr r' \<longrightarrow> date_ticks acc \<longrightarrow> is_month_start cur \<longrightarrow> date_ticks r'",
        OF _ assms(1)])
    fix tl' :: "int \<Rightarrow> date \<Rightarrow> date \<Rightarrow> pyval list \<Rightarrow> (error + pyval list) option"
    fix iv e cur acc res
    assume IH: "\<And>iv e cur acc res. tl' iv e cur acc = Some res
        \<Longrightarrow> \<forall>r'. res = Inr r' \<longrightarrow> date_ticks acc \<longrightarrow> is_month_start cur \<longrightarrow> date_ticks r'"
    assume eq: "(if date_le cur e then
        (let ticks' = acc @ [PDate cur];
             month1 = month cur + iv;
             year' = year cur + (month1 - 1) div 12;
             month' = (month1 - 1) mod 12 + 1
         in case datetime year' month' 1 of
              Inl e \<Rightarrow> Some (Inl e)
            | Inr next_tick \<Rightarrow> tl' iv e next_tick ticks')
      else Some (Inr acc)) = Some res"
    show "\<forall>r'. res = Inr r' \<longrightarrow> date_ticks acc \<longrightarrow> is_month_start cur \<longrightarrow> date_ticks r'"
    proof (intro allI impI)
      fix r'
      assume res: "res = Inr r'" and a: "date_ticks acc" and m: "is_month_start cur"
      show "date_ticks r'"
      proof (cases "date_le cur e")
        case False
        then show ?thesis using eq a res by simp
      next
        case True
        have "valid_date cur" using m by (rule is_month_start_valid)
        then have a': "date_ticks (acc @ [PDate cur])" using a by (auto simp: date_ticks_def)
        from eq True res obtain nxt where
          n: "datetime (year cur + (month cur + iv - 1) div 12)
                ((month cur + iv - 1) mod 12 + 1) 1 = Inr nxt"
          and t: "tl' iv e nxt (acc @ [PDate cur]) = Some res"
          by (auto simp: Let_def split: sum.splits)
        have m': "is_month_start nxt" using n by (rule datetime_first_of_month)
        from IH[OF t] res a' m' show ?thesis by blast
      qed
    qed
  qed
  then show ?thesis using assms(2,3) by blast
qed

lemma date_ticks_map:
  assumes "date_ticks vs"
  shows "\<exists>ds. vs = map PDate ds \<and> (\<forall>d \<in> set ds. valid_date d)"
  using assms
proof (induction vs)
  case Nil
  show ?case by simp
next
  case (Cons v vs)
  then obtain d where d: "v = PDate d" "valid_date d" by (auto simp: date_ticks_def)
  from Cons obtain ds where ds: "vs = map PDate ds" "\<forall>d \<in> set ds. valid_date d"
    by (auto simp: date_ticks_def)
  show ?case using d ds by (intro exI[of _ "d # ds"]) simp
qed

lemma get_big_date_limits_well_formed:
  assumes "get_big_date_limits vs max_ticks = Some (Inr limits)"
  shows "\<exists>ds. limits = map PDate ds \<and> (\<forall>d \<in> set ds. valid_date d)"
proof -
  from assms obtain iv e start where
    s: "is_month_start start" and l: "tick_loop iv e start [] = Some (Inr limits)"
    unfolding get_big_date_limits_def Let_def
    by (auto split: sum.splits if_splits option.splits dest: datetime_first_of_month)
  have "date_ticks []" by (simp add: date_ticks_def)
  then have "date_ticks limits" using tick_loop_dates[OF l] s by blast
  then show ?thesis by (rule date_ticks_map)
qed

lemma get_numeric_limits_numbers:
  assumes "get_numeric_limits vs max_ticks = Inr limits"
  shows "\<exists>rs. limits = map PNum rs"
proof -
  from assms obtain pad start stop where
    "limits = map (\<lambda>y. PNum (real_of_int y * pad)) [start..stop]"
    unfolding get_numeric_limits_def Let_def
    by (auto split: sum.splits if_splits)
  then have "limits = map PNum (map (\<lambda>y. real_of_int y * pad) [start..stop])" by simp
  then show ?thesis by blast
qed

lemma get_limits_well_formed:
  assumes "get_limits vs max_ticks = Some (Inr limits)"
  shows "(\<exists>rs. limits = map PNum rs)
       \<or> (\<exists>ds. limits = map PDate ds \<and> (\<forall>d \<in> set ds. valid_date d))"
proof (cases "list_all is_date_like vs")
  case True
  then have "get_big_date_limits vs max_ticks = Some (Inr limits)"
    using assms by (simp add: get_limits_def split: if_splits)
  then show ?thesis using get_big_date_limits_well_formed by blast
next
  case False
  then have "get_numeric_limits vs max_ticks = Inr limits"
    using assms by (simp add: get_limits_def split: if_splits)
  then show ?thesis using get_numeric_limits_numbers by blast
qed

lemma XAxis_ticks_limits:
  "XAxis_ticks st tick_length es self = Inr ax \<Longrightarrow> axis_limits ax = axis_limits self"
  by (induction es arbitrary: self) (auto simp: Let_def split: if_splits)

lemma YAxis_ticks_limits:
  "YAxis_ticks st tick_length es self = Inr ax \<Longrightarrow> axis_limits ax = axis_limits self"
  by (induction es arbitrary: self) (auto simp: Let_def split: if_splits)

lemma XAxis_init_limits:
  assumes "XAxis_init x_position y_position data_points axis_len label_format max_ticks st tick_length
      = Some (Inr ax)"
  shows "get_limits data_points max_ticks = Some (Inr (axis_limits ax))"
  using assms unfolding XAxis_init_def Axis_init_def Let_def
  by (auto split: option.splits sum.splits dest!: XAxis_ticks_limits)

lemma YAxis_init_limits:
  assumes "YAxis_init x_position y_position data_points axis_len label_format max_ticks st tick_length
      = Some (Inr ax)"
  shows "get_limits data_points max_ticks = Some (Inr (axis_limits ax))"
  using assms unfolding YAxis_init_def Axis_init_def Let_def
  by (auto split: option.splits sum.splits dest!: YAxis_ticks_limits)

end
